theory Spec2Isabelle
  imports Complex_Main "HOL-Library.Log_Nat"
begin

section \<open>Python values used by the two modules\<close>

text \<open>
  Python integers are \<open>int\<close>. A Python float, and a NumPy \<open>float64\<close>, is an IEEE-754
  binary64 number: a real of the form \<open>m * 2 ^ e\<close> with \<open>\<bar>m\<bar> < 2 ^ 53\<close>. Every arithmetic
  operation on floats returns the double nearest to the exact result, a tie going to the
  double whose significand is even. The exponent range is not modelled: no value of the
  program comes near an overflow or a subnormal number.
\<close>

definition round_half_even :: "real \<Rightarrow> int" where
  "round_half_even x =
     (let f = \<lfloor>x\<rfloor>; r = x - of_int f in
      if r < 1 / 2 then f else if 1 / 2 < r then f + 1 else if even f then f else f + 1)"

text \<open>The binary exponent of a non-zero real: \<open>2 ^ exponent x \<le> \<bar>x\<bar> < 2 ^ (exponent x + 1)\<close>.\<close>

definition exponent :: "real \<Rightarrow> int" where
  "exponent x =
     (if 1 \<le> \<bar>x\<bar> then int (floorlog 2 (nat \<lfloor>\<bar>x\<bar>\<rfloor>)) - 1
      else - int (floorlog 2 (nat (\<lceil>1 / \<bar>x\<bar>\<rceil> - 1))))"

text \<open>The distance between two neighbouring doubles in the binade of \<open>x\<close>.\<close>

definition ulp :: "real \<Rightarrow> real" where
  "ulp x = 2 powi (exponent x - 52)"

definition round_double :: "real \<Rightarrow> real" where
  "round_double x = (if x = 0 then 0 else ulp x * of_int (round_half_even (x / ulp x)))"

definition is_double :: "real \<Rightarrow> bool" where
  "is_double r = (\<exists>m e :: int. \<bar>m\<bar> < 2 ^ 53 \<and> r = of_int m * 2 powi e)"

text \<open>
  The four operations on floats, a decimal literal of the source (the double nearest to
  the decimal), and the conversion of an integer to a float.
\<close>

definition fadd :: "real \<Rightarrow> real \<Rightarrow> real" where
  "fadd a b = round_double (a + b)"

definition fsub :: "real \<Rightarrow> real \<Rightarrow> real" where
  "fsub a b = round_double (a - b)"

definition fmul :: "real \<Rightarrow> real \<Rightarrow> real" where
  "fmul a b = round_double (a * b)"

definition fdiv :: "real \<Rightarrow> real \<Rightarrow> real" where
  "fdiv a b = round_double (a / b)"

definition literal :: "real \<Rightarrow> real" where
  "literal x = round_double x"

definition py_float :: "int \<Rightarrow> real" where
  "py_float n = round_double (of_int n)"

text \<open>\<open>int(x)\<close> on a float truncates towards zero.\<close>

definition py_int :: "real \<Rightarrow> int" where
  "py_int x = (if 0 \<le> x then \<lfloor>x\<rfloor> else \<lceil>x\<rceil>)"

text \<open>
  Exceptions: \<open>except Exception\<close> catches the instances of class \<open>Exception\<close> only;
  the other instances of \<open>BaseException\<close> (KeyboardInterrupt, SystemExit, a task's
  CancelledError) pass through it.
\<close>

datatype exn = Exception string | BaseException string

fun is_Exception :: "exn \<Rightarrow> bool" where
  "is_Exception (Exception _) = True"
| "is_Exception (BaseException _) = False"

section \<open>video\_unique.py\<close>

subsection \<open>\<open>_fit_within_max_dim\<close> (lines 10--20)\<close>

definition fit_within_max_dim :: "int \<Rightarrow> int \<Rightarrow> int \<Rightarrow> int \<times> int \<times> real" where
  "fit_within_max_dim width height max_dim =
     (if max_dim \<le> 0 then (width, height, 1)
      else let max_side = max width height in
        if max_side \<le> max_dim then (width, height, 1)
        else let scale = fdiv (py_float max_dim) (py_float max_side) in
          (py_int (fmul (py_float width) scale), py_int (fmul (py_float height) scale), scale))"

subsection \<open>\<open>_strength_params\<close> (lines 23--51)\<close>

text \<open>The dictionary of six \<open>(min, max)\<close> pairs that the function returns.\<close>

record profile =
  p_resize :: "real \<times> real"
  p_speed :: "real \<times> real"
  p_rotate :: "real \<times> real"
  p_density :: "real \<times> real"
  p_opacity :: "real \<times> real"
  p_bitrate :: "real \<times> real"

definition low_profile :: profile where
  "low_profile = \<lparr>p_resize = (literal 0.95, literal 1.05),
     p_speed = (literal 0.98, literal 1.02), p_rotate = (- literal 0.5, literal 0.5),
     p_density = (literal 0.4, literal 0.6), p_opacity = (literal 0.06, literal 0.12),
     p_bitrate = (literal 0.9, literal 1.1)\<rparr>"

definition high_profile :: profile where
  "high_profile = \<lparr>p_resize = (literal 0.6, literal 1.4),
     p_speed = (literal 0.9, literal 1.1), p_rotate = (- literal 4.0, literal 4.0),
     p_density = (literal 0.6, literal 0.8), p_opacity = (literal 0.15, literal 0.25),
     p_bitrate = (literal 0.7, literal 1.3)\<rparr>"

definition medium_profile :: profile where
  "medium_profile = \<lparr>p_resize = (literal 0.7, literal 1.3),
     p_speed = (literal 0.92, literal 1.08), p_rotate = (- literal 2.0, literal 2.0),
     p_density = (literal 0.5, literal 0.7), p_opacity = (literal 0.10, literal 0.18),
     p_bitrate = (literal 0.8, literal 1.2)\<rparr>"

text \<open>\<open>str.lower()\<close> on the ASCII letters; every other character is left as it is.\<close>

definition lower_char :: "char \<Rightarrow> char" where
  "lower_char c =
     (case map_of (zip ''ABCDEFGHIJKLMNOPQRSTUVWXYZ'' ''abcdefghijklmnopqrstuvwxyz'') c of
        Some d \<Rightarrow> d
      | None \<Rightarrow> c)"

definition lower :: "string \<Rightarrow> string" where
  "lower s = map lower_char s"

definition strength_params :: "string \<Rightarrow> profile" where
  "strength_params strength =
     (let s = lower (if strength = [] then ''medium'' else strength) in
      if s = ''low'' then low_profile
      else if s = ''high'' then high_profile
      else medium_profile)"

subsection \<open>The pipeline's effects\<close>

text \<open>
  A pipeline step reads the state of \<open>np.random\<close> and returns its outcome (a raised
  exception or a value), the state of the random source afterwards, and the calls it made
  to its collaborators (moviepy, the file system, the encoder), in program order. The
  calls made before an exception are kept: they have happened.

  The state of \<open>np.random\<close> is the stream of raw samples it will hand out, each one a
  float of \<open>[0, 1)\<close>.
\<close>

type_synonym rng = "nat \<Rightarrow> real"

definition unit_draws :: "rng \<Rightarrow> bool" where
  "unit_draws g = (\<forall>k. 0 \<le> g k \<and> g k < 1)"

datatype fx = Resize real | Speedx real | Rotate real | Volumex real

datatype bitrate_attr = AttrRaises | AttrNone | AttrValue int

text \<open>
  A moviepy video clip as the pipeline reads it: \<open>video.w\<close>, \<open>video.h\<close>, whether
  \<open>video.audio\<close> is not \<open>None\<close>, what reading \<open>video.reader.bitrate\<close> gives, and the
  effects applied so far. Durations are not modelled.
\<close>

record clip =
  clip_w :: int
  clip_h :: int
  clip_audio :: bool
  clip_bitrate :: bitrate_attr
  clip_fx :: "fx list"

record color_clip =
  cc_size :: "int \<times> int"
  cc_color :: "int \<times> int \<times> int"
  cc_opacity :: real

text \<open>
  The overlay element (lines 102--169): a rectangle with size, colour, opacity and
  position; noise on a grid with its pixel samples; lines \<open>(y, colour, thickness)\<close>;
  circles \<open>(x, y, radius, colour)\<close>; a gradient with its direction and grid.
\<close>

datatype element =
    Rectangle "int \<times> int" "int \<times> int \<times> int" real "int \<times> int"
  | Noise "int \<times> int" "int list" real
  | Lines "(int \<times> int \<times> int) list" real
  | Circle "(int \<times> int \<times> int \<times> int) list" real
  | Gradient string "int \<times> int" real

text \<open>\<open>CompositeVideoClip([video, color_filter, element]).set_audio(audio)\<close>.\<close>

record composite =
  comp_video :: clip
  comp_filter :: color_clip
  comp_element :: element
  comp_audio :: "fx list"

text \<open>The arguments of \<open>write_videofile\<close> (lines 184--192).\<close>

record enc_args =
  enc_path :: string
  enc_codec :: string
  enc_fps :: int
  enc_audio_codec :: string
  enc_bitrate :: string
  enc_threads :: int
  enc_preset :: string

datatype call =
    VideoFileClip string
  | AudioFileClip string
  | VideoFx fx
  | AudioFx fx
  | MakeDirs string
  | WriteVideofile composite enc_args
  | ProgressCb int string

type_synonym 'a M = "rng \<Rightarrow> (exn + 'a) \<times> rng \<times> call list"

definition ret :: "'a \<Rightarrow> 'a M" where
  "ret x g = (Inr x, g, [])"

definition raise :: "exn \<Rightarrow> 'a M" where
  "raise e g = (Inl e, g, [])"

definition and_then :: "'a M \<Rightarrow> ('a \<Rightarrow> 'b M) \<Rightarrow> 'b M" where
  "and_then m f g =
     (case m g of
        (Inl e, g', l) \<Rightarrow> (Inl e, g', l)
      | (Inr x, g', l) \<Rightarrow> (case f x g' of (r, g'', l') \<Rightarrow> (r, g'', l @ l')))"

definition call :: "call \<Rightarrow> unit M" where
  "call c g = (Inr (), g, [c])"

text \<open>What a collaborator answers: \<open>None\<close> when the call returns, the exception otherwise.\<close>

definition answer :: "exn option \<Rightarrow> unit M" where
  "answer r = (case r of None \<Rightarrow> ret () | Some e \<Rightarrow> raise e)"

subsection \<open>The random source (\<open>np.random\<close>)\<close>

definition random_sample :: "real M" where
  "random_sample g = (Inr (g 0), (\<lambda>k. g (Suc k)), [])"

text \<open>
  \<open>np.random.uniform(lo, hi)\<close> is \<open>lo + (hi - lo) * u\<close> for the next raw sample \<open>u\<close>, computed
  in doubles: the difference, the product and the sum are each rounded.
\<close>

definition np_uniform :: "real \<times> real \<Rightarrow> real \<Rightarrow> real" where
  "np_uniform bounds u = fadd (fst bounds) (fmul (fsub (snd bounds) (fst bounds)) u)"

text \<open>A range whose bounds are doubles, in order, and whose width is a double too.\<close>

definition exact_range :: "real \<times> real \<Rightarrow> bool" where
  "exact_range bounds =
     (is_double (fst bounds) \<and> is_double (snd bounds) \<and>
      is_double (snd bounds - fst bounds) \<and> fst bounds \<le> snd bounds)"

definition in_range :: "real \<times> real \<Rightarrow> real \<Rightarrow> bool" where
  "in_range bounds x = (fst bounds \<le> x \<and> x \<le> snd bounds)"

definition uniform :: "real \<times> real \<Rightarrow> real M" where
  "uniform bounds = and_then random_sample (\<lambda>u. ret (np_uniform bounds u))"

text \<open>\<open>np.random.randint(lo, hi)\<close>: an integer of \<open>[lo, hi)\<close>; ValueError when \<open>lo \<ge> hi\<close>.\<close>

definition randint :: "int \<Rightarrow> int \<Rightarrow> int M" where
  "randint lo hi =
     (if lo < hi
      then and_then random_sample (\<lambda>u. ret (lo + \<lfloor>u * real_of_int (hi - lo)\<rfloor>))
      else raise (Exception ''ValueError''))"

text \<open>\<open>np.random.choice(xs)\<close>: the element at a random index below \<open>len(xs)\<close>.\<close>

definition choice :: "'a list \<Rightarrow> 'a M" where
  "choice xs = and_then random_sample (\<lambda>u. ret (xs ! nat \<lfloor>u * real (length xs)\<rfloor>))"

text \<open>\<open>np.random.rand(...)\<close> with \<open>n\<close> entries: the next \<open>n\<close> raw samples.\<close>

definition rand :: "nat \<Rightarrow> real list M" where
  "rand n g = (Inr (map g [0..<n]), (\<lambda>k. g (k + n)), [])"

subsection \<open>The collaborators\<close>

text \<open>
  What the pipeline consumes from outside: the media backend (\<open>VideoFileClip\<close>,
  \<open>AudioFileClip\<close>, the frame size after an effect), the environment variables
  (\<open>MAX_DIM\<close> and \<open>VIDEO_THREADS\<close> holding integers), the file system and encoder
  (\<open>os.makedirs\<close>, \<open>write_videofile\<close>), the entropy that \<open>np.random.seed(None)\<close>
  installs before copy \<open>i\<close>, and \<open>os.path.abspath\<close>.
\<close>

record env =
  open_video :: "string \<Rightarrow> exn + clip"
  open_audio :: "string \<Rightarrow> exn option"
  fx_size :: "fx \<Rightarrow> int \<times> int \<Rightarrow> int \<times> int"
  MAX_DIM :: int
  VIDEO_THREADS :: int
  FFMPEG_PRESET :: string
  makedirs :: "string \<Rightarrow> exn option"
  write_videofile :: "string \<Rightarrow> exn option"
  entropy :: "int \<Rightarrow> rng"
  abspath :: "string \<Rightarrow> string"

subsection \<open>\<open>os.path\<close> (POSIX) and \<open>str\<close> of an integer\<close>

definition basename :: "string \<Rightarrow> string" where
  "basename p = rev (takeWhile (\<lambda>c. c \<noteq> CHR ''/'') (rev p))"

definition dirname :: "string \<Rightarrow> string" where
  "dirname p =
     (let head = rev (dropWhile (\<lambda>c. c \<noteq> CHR ''/'') (rev p)) in
      if head \<noteq> [] \<and> head \<noteq> replicate (length head) CHR ''/''
      then rev (dropWhile (\<lambda>c. c = CHR ''/'') (rev head))
      else head)"

definition splitext :: "string \<Rightarrow> string \<times> string" where
  "splitext p =
     (let name = basename p in
      if CHR ''.'' \<in> set name
      then
        let stem = rev (tl (dropWhile (\<lambda>c. c \<noteq> CHR ''.'') (rev name)));
            ext = CHR ''.'' # rev (takeWhile (\<lambda>c. c \<noteq> CHR ''.'') (rev name))
        in if list_ex (\<lambda>c. c \<noteq> CHR ''.'') stem
           then (take (length p - length ext) p, ext)
           else (p, [])
      else (p, []))"

definition path_join :: "string \<Rightarrow> string \<Rightarrow> string" where
  "path_join a b =
     (if (case b of [] \<Rightarrow> False | c # _ \<Rightarrow> c = CHR ''/'') then b
      else if a = [] \<or> last a = CHR ''/'' then a @ b
      else a @ ''/'' @ b)"

definition digit_char :: "nat \<Rightarrow> char" where
  "digit_char d = ''0123456789'' ! d"

fun digits :: "nat \<Rightarrow> string" where
  "digits n = (if n < 10 then [digit_char n] else digits (n div 10) @ [digit_char (n mod 10)])"

declare digits.simps [simp del]

definition str_int :: "int \<Rightarrow> string" where
  "str_int i = (if i < 0 then CHR ''-'' # digits (nat (- i)) else digits (nat i))"

subsection \<open>\<open>_unique_once\<close> (lines 54--194)\<close>

text \<open>Lines 59--60: the video, and its audio (opened from the file when the video has none).\<close>

definition load_clips :: "env \<Rightarrow> string \<Rightarrow> clip M" where
  "load_clips E input_path =
     and_then (call (VideoFileClip input_path)) (\<lambda>_.
     case open_video E input_path of
       Inl e \<Rightarrow> raise e
     | Inr video \<Rightarrow>
         if clip_audio video then ret video
         else and_then (call (AudioFileClip input_path)) (\<lambda>_.
              and_then (answer (open_audio E input_path)) (\<lambda>_. ret video)))"

text \<open>\<open>video.fx(f, ...)\<close>: the clip with the effect applied and the frame size it then has.\<close>

definition apply_fx :: "env \<Rightarrow> fx \<Rightarrow> clip \<Rightarrow> clip" where
  "apply_fx E f video =
     video\<lparr>clip_w := fst (fx_size E f (clip_w video, clip_h video)),
           clip_h := snd (fx_size E f (clip_w video, clip_h video)),
           clip_fx := clip_fx video @ [f]\<rparr>"

definition video_fx :: "env \<Rightarrow> fx \<Rightarrow> clip \<Rightarrow> clip M" where
  "video_fx E f video = and_then (call (VideoFx f)) (\<lambda>_. ret (apply_fx E f video))"

text \<open>Lines 63--71: the sampled resize, speed and rotation; the audio's effects are returned.\<close>

definition transform :: "env \<Rightarrow> profile \<Rightarrow> clip \<Rightarrow> (clip \<times> fx list) M" where
  "transform E P video =
     and_then (uniform (p_resize P)) (\<lambda>resize_factor.
     and_then (uniform (p_speed P)) (\<lambda>speed_factor.
     and_then (uniform (p_rotate P)) (\<lambda>rotation_angle.
     and_then (video_fx E (Resize resize_factor) video) (\<lambda>video.
     and_then (video_fx E (Speedx speed_factor) video) (\<lambda>video.
     and_then (video_fx E (Rotate rotation_angle) video) (\<lambda>video.
     and_then (call (AudioFx (Volumex speed_factor))) (\<lambda>_.
     ret (video, [Volumex speed_factor]))))))))"

text \<open>Lines 74--77.\<close>

definition cap_resolution :: "env \<Rightarrow> clip \<Rightarrow> clip M" where
  "cap_resolution E video =
     (case fit_within_max_dim (clip_w video) (clip_h video) (MAX_DIM E) of
        (new_w, new_h, scale_cap) \<Rightarrow>
          if scale_cap < 1 then video_fx E (Resize scale_cap) video else ret video)"

text \<open>
  Lines 80--84: \<open>video.reader.bitrate or 3000\<close>, and 3000 when reading it raises; \<open>or\<close>
  takes the default for \<open>None\<close> and for \<open>0\<close>.
\<close>

definition original_bitrate :: "clip \<Rightarrow> int" where
  "original_bitrate video =
     (case clip_bitrate video of
        AttrRaises \<Rightarrow> 3000
      | AttrNone \<Rightarrow> 3000
      | AttrValue b \<Rightarrow> if b = 0 then 3000 else b)"

definition pick_bitrate :: "profile \<Rightarrow> clip \<Rightarrow> int M" where
  "pick_bitrate P video =
     and_then (uniform (p_bitrate P)) (\<lambda>m.
     ret (py_int (fmul (py_float (original_bitrate video)) m)))"

text \<open>Lines 87--95: \<open>color1 + rand(4) * (color2 - color1)\<close> with \<open>color1 = 0\<close>, \<open>color2 = 1\<close>.\<close>

definition make_color_filter :: "profile \<Rightarrow> clip \<Rightarrow> color_clip M" where
  "make_color_filter P video =
     and_then (rand 4) (\<lambda>r.
     let random_color = map (\<lambda>x. fadd (py_float 0) (fmul x (py_float (1 - 0)))) r in
     and_then (uniform (p_density P)) (\<lambda>density.
     ret \<lparr>cc_size = (clip_w video, clip_h video),
          cc_color = (py_int (fmul (random_color ! 0) (py_float 255)),
                      py_int (fmul (random_color ! 1) (py_float 255)),
                      py_int (fmul (random_color ! 2) (py_float 255))),
          cc_opacity = fmul density (random_color ! 3)\<rparr>))"

text \<open>Lines 102--112: the rectangle.\<close>

definition rectangle_element :: "clip \<Rightarrow> real \<Rightarrow> element M" where
  "rectangle_element video opacity =
     and_then (randint 50 (max 51 (clip_w video div 2))) (\<lambda>w.
     and_then (randint 50 (max 51 (clip_h video div 2))) (\<lambda>h.
     and_then (randint 0 255) (\<lambda>red.
     and_then (randint 0 255) (\<lambda>green.
     and_then (randint 0 255) (\<lambda>blue.
     and_then (randint 0 (max 1 (clip_w video - w))) (\<lambda>x.
     and_then (randint 0 (max 1 (clip_h video - h))) (\<lambda>y.
     ret (Rectangle (w, h) (red, green, blue) opacity (x, y)))))))))"

text \<open>Lines 116--118 and 148--150: the reduced grid of the noise and of the gradient.\<close>

definition small_grid :: "clip \<Rightarrow> int \<times> int" where
  "small_grid video =
     (let down = max 1 (py_int (round_double
                                  (real_of_int (max (clip_w video) (clip_h video)) / 480))) in
      (max 2 (clip_w video div down), max 2 (clip_h video div down)))"

text \<open>Lines 114--121.\<close>

definition noise_element :: "clip \<Rightarrow> real \<Rightarrow> element M" where
  "noise_element video opacity =
     (case small_grid video of
        (small_w, small_h) \<Rightarrow>
          and_then (rand (nat small_h * nat small_w * 3)) (\<lambda>r.
          ret (Noise (small_w, small_h) (map (\<lambda>x. py_int (fmul x (py_float 255))) r)
                 opacity)))"

text \<open>Lines 123--133: the loop draws one line per round.\<close>

fun draw_lines :: "nat \<Rightarrow> clip \<Rightarrow> (int \<times> int \<times> int) list M" where
  "draw_lines 0 video = ret []"
| "draw_lines (Suc n) video =
     and_then (randint 0 (clip_h video)) (\<lambda>y.
     and_then (randint 200 255) (\<lambda>colour.
     and_then (randint 1 5) (\<lambda>thickness.
     and_then (draw_lines n video) (\<lambda>rest.
     ret ((y, colour, thickness) # rest)))))"

definition lines_element :: "clip \<Rightarrow> real \<Rightarrow> element M" where
  "lines_element video opacity =
     and_then (randint 3 8) (\<lambda>n.
     and_then (draw_lines (nat n) video) (\<lambda>ls.
     ret (Lines ls (fmul opacity (literal 0.7)))))"

text \<open>Lines 135--144: the loop draws one circle per round.\<close>

fun draw_circles :: "nat \<Rightarrow> clip \<Rightarrow> (int \<times> int \<times> int \<times> int) list M" where
  "draw_circles 0 video = ret []"
| "draw_circles (Suc n) video =
     and_then (randint 0 (clip_w video)) (\<lambda>x.
     and_then (randint 0 (clip_h video)) (\<lambda>y.
     and_then (randint 20 (max 21 (min (clip_w video) (clip_h video) div 4))) (\<lambda>radius.
     and_then (randint 150 255) (\<lambda>colour.
     and_then (draw_circles n video) (\<lambda>rest.
     ret ((x, y, radius, colour) # rest))))))"

definition circle_element :: "clip \<Rightarrow> real \<Rightarrow> element M" where
  "circle_element video opacity =
     and_then (randint 2 5) (\<lambda>n.
     and_then (draw_circles (nat n) video) (\<lambda>cs.
     ret (Circle cs opacity)))"

text \<open>Lines 146--169: the gradient; the intensity of the grid's pixel \<open>(x, y)\<close>.\<close>

definition gradient_intensity :: "string \<Rightarrow> int \<times> int \<Rightarrow> int \<Rightarrow> int \<Rightarrow> int" where
  "gradient_intensity direction grid x y =
     (case grid of
        (small_w, small_h) \<Rightarrow>
          if direction = ''horizontal''
          then py_int (fmul (py_float 255)
                              (round_double (real_of_int x / real_of_int (max 1 small_w))))
          else if direction = ''vertical''
          then py_int (fmul (py_float 255)
                              (round_double (real_of_int y / real_of_int (max 1 small_h))))
          else py_int (fmul (py_float 255)
                              (round_double (real_of_int (x + y) /
                                             real_of_int (max 1 (small_w + small_h))))))"

definition gradient_element :: "clip \<Rightarrow> real \<Rightarrow> element M" where
  "gradient_element video opacity =
     (case small_grid video of
        (small_w, small_h) \<Rightarrow>
          and_then (if small_w > 1 \<and> small_h > 1
                    then choice [''horizontal'', ''vertical'', ''diagonal'']
                    else ret ''horizontal'') (\<lambda>direction.
          ret (Gradient direction (small_w, small_h) (fmul opacity (literal 0.5)))))"

text \<open>Lines 98--169.\<close>

definition make_element :: "profile \<Rightarrow> clip \<Rightarrow> element M" where
  "make_element P video =
     and_then (uniform (p_opacity P)) (\<lambda>opacity.
     and_then (if min (clip_w video) (clip_h video) \<ge> 2
               then choice [''rectangle'', ''noise'', ''lines'', ''circle'', ''gradient'']
               else ret ''rectangle'') (\<lambda>element_type.
     if element_type = ''rectangle'' then rectangle_element video opacity
     else if element_type = ''noise'' then noise_element video opacity
     else if element_type = ''lines'' then lines_element video opacity
     else if element_type = ''circle'' then circle_element video opacity
     else gradient_element video opacity))"

text \<open>Lines 172--194: the output name, the directory, the encoder call.\<close>

definition output_name :: "string \<Rightarrow> int \<Rightarrow> string" where
  "output_name input_path index =
     fst (splitext (basename input_path)) @ ''_'' @ str_int index @ ''.mp4''"

definition save :: "env \<Rightarrow> string \<Rightarrow> string \<Rightarrow> int \<Rightarrow> composite \<Rightarrow> int \<Rightarrow> (string \<times> int) M" where
  "save E input_path output_dir index final_video bitrate =
     and_then (call (MakeDirs output_dir)) (\<lambda>_.
     and_then (answer (makedirs E output_dir)) (\<lambda>_.
     let output_path = path_join output_dir (output_name input_path index) in
     and_then (call (WriteVideofile final_video
                 \<lparr>enc_path = output_path, enc_codec = ''libx264'', enc_fps = 24,
                  enc_audio_codec = ''aac'', enc_bitrate = str_int bitrate @ ''k'',
                  enc_threads = VIDEO_THREADS E, enc_preset = FFMPEG_PRESET E\<rparr>)) (\<lambda>_.
     and_then (answer (write_videofile E output_path)) (\<lambda>_.
     ret (output_path, bitrate)))))"

definition unique_once :: "env \<Rightarrow> string \<Rightarrow> string \<Rightarrow> int \<Rightarrow> string \<Rightarrow> (string \<times> int) M" where
  "unique_once E input_path output_dir index strength =
     and_then (load_clips E input_path) (\<lambda>video.
     let P = strength_params strength in
     and_then (transform E P video) (\<lambda>(video, audio).
     and_then (cap_resolution E video) (\<lambda>video.
     and_then (pick_bitrate P video) (\<lambda>bitrate.
     and_then (make_color_filter P video) (\<lambda>color_filter.
     and_then (make_element P video) (\<lambda>element.
     save E input_path output_dir index
       \<lparr>comp_video = video, comp_filter = color_filter, comp_element = element,
        comp_audio = audio\<rparr> bitrate))))))"

subsection \<open>\<open>unique_video\<close> (lines 197--231)\<close>

text \<open>\<open>np.random.seed(None)\<close>: the random source starts again from fresh entropy.\<close>

definition seed :: "env \<Rightarrow> int \<Rightarrow> unit M" where
  "seed E i g = (Inr (), entropy E i, [])"

text \<open>
  Lines 226--230. The callback is what it answers to \<open>(i, out_path)\<close>: \<open>None\<close> when it
  returns, the exception when it raises.
\<close>

type_synonym progress_cb = "int \<Rightarrow> string \<Rightarrow> exn option"

definition notify :: "progress_cb option \<Rightarrow> int \<Rightarrow> string \<Rightarrow> unit M" where
  "notify progress_cb i out_path =
     (case progress_cb of
        None \<Rightarrow> ret ()
      | Some cb \<Rightarrow>
          and_then (call (ProgressCb i out_path)) (\<lambda>_.
          case cb i out_path of
            None \<Rightarrow> ret ()
          | Some e \<Rightarrow> if is_Exception e then ret () else raise e))"

text \<open>The loop over \<open>range(1, copies + 1)\<close>, with the list \<open>outputs\<close> built so far.\<close>

fun copies_loop ::
  "env \<Rightarrow> string \<Rightarrow> string \<Rightarrow> progress_cb option \<Rightarrow> string \<Rightarrow> int list \<Rightarrow> string list
    \<Rightarrow> string list M" where
  "copies_loop E input_path output_dir progress_cb strength [] outputs = ret outputs"
| "copies_loop E input_path output_dir progress_cb strength (i # rest) outputs =
     and_then (seed E i) (\<lambda>_.
     and_then (unique_once E input_path output_dir i strength) (\<lambda>(out_path, _).
     and_then (notify progress_cb i out_path) (\<lambda>_.
     copies_loop E input_path output_dir progress_cb strength rest (outputs @ [out_path]))))"

definition default_output_dir :: "env \<Rightarrow> string \<Rightarrow> string" where
  "default_output_dir E input_path = path_join (dirname (abspath E input_path)) ''unique''"

definition unique_video ::
  "env \<Rightarrow> string \<Rightarrow> int \<Rightarrow> string option \<Rightarrow> progress_cb option \<Rightarrow> string \<Rightarrow> string list M" where
  "unique_video E input_path copies output_dir progress_cb strength =
     (let output_dir = (case output_dir of
                          None \<Rightarrow> default_output_dir E input_path
                        | Some d \<Rightarrow> d)
      in copies_loop E input_path output_dir progress_cb strength [1..copies] [])"

subsection \<open>Reading a run\<close>

definition outcome :: "(exn + 'a) \<times> rng \<times> call list \<Rightarrow> exn + 'a" where
  "outcome r = fst r"

definition calls_of :: "(exn + 'a) \<times> rng \<times> call list \<Rightarrow> call list" where
  "calls_of r = snd (snd r)"

text \<open>A step is quiet when it always returns a value and calls no collaborator.\<close>

definition quiet :: "'a M \<Rightarrow> bool" where
  "quiet m = (\<forall>g. \<exists>x g'. m g = (Inr x, g', []))"

text \<open>
  Names for what a run computes: the scale of the cap for a clip (line 75), the clip after
  the three sampled effects (lines 68--70) and after the cap (lines 76--77), and the
  arguments handed to the encoder (lines 184--192).
\<close>

definition scale_cap_of :: "env \<Rightarrow> clip \<Rightarrow> real" where
  "scale_cap_of E video = snd (snd (fit_within_max_dim (clip_w video) (clip_h video) (MAX_DIM E)))"

definition transformed :: "env \<Rightarrow> profile \<Rightarrow> clip \<Rightarrow> rng \<Rightarrow> clip" where
  "transformed E P video g =
     apply_fx E (Rotate (np_uniform (p_rotate P) (g 2)))
       (apply_fx E (Speedx (np_uniform (p_speed P) (g 1)))
         (apply_fx E (Resize (np_uniform (p_resize P) (g 0))) video))"

definition capped :: "env \<Rightarrow> clip \<Rightarrow> clip" where
  "capped E video =
     (if scale_cap_of E video < 1 then apply_fx E (Resize (scale_cap_of E video)) video
      else video)"

definition encoder_args :: "env \<Rightarrow> string \<Rightarrow> int \<Rightarrow> enc_args" where
  "encoder_args E output_path bitrate =
     \<lparr>enc_path = output_path, enc_codec = ''libx264'', enc_fps = 24,
      enc_audio_codec = ''aac'', enc_bitrate = str_int bitrate @ ''k'',
      enc_threads = VIDEO_THREADS E, enc_preset = FFMPEG_PRESET E\<rparr>"

text \<open>The opacity an overlay element was given by \<open>set_opacity\<close>.\<close>

fun element_opacity :: "element \<Rightarrow> real" where
  "element_opacity (Rectangle _ _ opacity _) = opacity"
| "element_opacity (Noise _ _ opacity) = opacity"
| "element_opacity (Lines _ opacity) = opacity"
| "element_opacity (Circle _ opacity) = opacity"
| "element_opacity (Gradient _ _ opacity) = opacity"

fun is_fx :: "call \<Rightarrow> bool" where
  "is_fx (VideoFx _) = True"
| "is_fx (AudioFx _) = True"
| "is_fx _ = False"


subsection \<open>A sample run\<close>

text \<open>
  A 1920x1080 source with an audio track and no readable bitrate, a media backend whose
  resize truncates the scaled size, the default configuration, collaborators that do not
  fail, and a callback that always raises.
\<close>

definition sample_clip :: clip where
  "sample_clip = \<lparr>clip_w = 1920, clip_h = 1080, clip_audio = True, clip_bitrate = AttrNone,
     clip_fx = []\<rparr>"

definition sample_env :: env where
  "sample_env = \<lparr>open_video = (\<lambda>p. Inr sample_clip),
     open_audio = (\<lambda>p. None),
     fx_size = (\<lambda>f (w, h). case f of
                  Resize r \<Rightarrow> (py_int (fmul (py_float w) r), py_int (fmul (py_float h) r))
                | _ \<Rightarrow> (w, h)),
     MAX_DIM = 720, VIDEO_THREADS = 1, FFMPEG_PRESET = ''veryfast'',
     makedirs = (\<lambda>p. None), write_videofile = (\<lambda>p. None),
     entropy = (\<lambda>i k. 0), abspath = (\<lambda>p. p)\<rparr>"

text \<open>
  A random source whose raw samples are all 0, one whose raw samples are all 7/8, a
  1056x594 clip and a 40x40 clip.
\<close>

definition zero_draws :: rng where
  "zero_draws k = 0"

definition high_draws :: rng where
  "high_draws k = 7 / 8"


definition tiny_clip :: clip where
  "tiny_clip = \<lparr>clip_w = 40, clip_h = 40, clip_audio = True, clip_bitrate = AttrNone,
     clip_fx = []\<rparr>"

definition failing_cb :: progress_cb where
  "failing_cb i p = Some (Exception ''callback failed'')"

section \<open>bot.py\<close>

subsection \<open>The job's effects\<close>

datatype message = MsgStarted int | MsgFileFailed string | MsgDone | MsgError


datatype event =
    SendMessage int message
  | SendChatAction int
  | SendVideo int string
  | Mkdtemp
  | Acquire
  | UniqueVideo string int string
  | Release
  | Exists string
  | Remove string
  | Rmtree string


record bstate =
  fs :: "string list"
  events :: "event list"

type_synonym 'a B = "bstate \<Rightarrow> (exn + 'a) \<times> bstate"





definition event :: "event \<Rightarrow> unit B" where
  "event ev s = (Inr (), s\<lparr>events := events s @ [ev]\<rparr>)"















subsection \<open>Jobs sharing the semaphore\<close>







subsection \<open>A sample job\<close>




section \<open>Properties\<close>

subsection \<open>Doubles\<close>

text \<open>Rounding is monotone against every double, fixes the doubles, and is off by at most
  half a unit in the last place.\<close>

lemma round_half_even_le: "x \<le> of_int k \<Longrightarrow> round_half_even x \<le> k"
  unfolding round_half_even_def Let_def by (auto split: if_splits) linarith+

lemma round_half_even_ge: "of_int k \<le> x \<Longrightarrow> k \<le> round_half_even x"
  unfolding round_half_even_def Let_def by (auto split: if_splits) linarith+


lemma exponent_bounds:
  assumes "x \<noteq> 0"
  shows "2 powi (exponent x) \<le> \<bar>x\<bar>" and "\<bar>x\<bar> < 2 powi (exponent x + 1)"
proof -
  have "2 powi (exponent x) \<le> \<bar>x\<bar> \<and> \<bar>x\<bar> < 2 powi (exponent x + 1)"
  proof (cases "1 \<le> \<bar>x\<bar>")
    case True
    define n where "n = nat \<lfloor>\<bar>x\<bar>\<rfloor>"
    define k where "k = floorlog 2 n"
    have n: "0 < n" "real n \<le> \<bar>x\<bar>" "\<bar>x\<bar> < real n + 1"
      using True unfolding n_def by (auto simp: nat_less_iff)
    have b: "2 ^ (k - 1) \<le> n" "n < 2 ^ k"
      using floorlog_bounds [of n 2] n(1) unfolding k_def by auto
    have k: "0 < k" using b(2) n(1) by (cases k) auto
    have e: "exponent x = int k - 1" using True by (simp add: exponent_def n_def k_def)
    have e1: "exponent x = int (k - 1)" using e k by simp
    have "2 powi (exponent x) = (2::real) ^ (k - 1)" unfolding e1 by simp
    also have "\<dots> \<le> real n" using b(1) by (metis of_nat_le_iff of_nat_numeral of_nat_power)
    finally have 1: "2 powi (exponent x) \<le> \<bar>x\<bar>" using n(2) by simp
    have "real n + 1 \<le> 2 ^ k" using b(2)
      by (metis Suc_leI of_nat_Suc of_nat_le_iff of_nat_numeral of_nat_power add.commute)
    moreover have "2 powi (exponent x + 1) = (2::real) ^ k" unfolding e by simp
    ultimately have "\<bar>x\<bar> < 2 powi (exponent x + 1)" using n(3) by simp
    then show ?thesis using 1 by simp
  next
    case False
    define y where "y = 1 / \<bar>x\<bar>"
    define n where "n = nat (\<lceil>y\<rceil> - 1)"
    define k where "k = floorlog 2 n"
    have x: "0 < \<bar>x\<bar>" "\<bar>x\<bar> < 1" using assms False by auto
    have y: "1 < y" unfolding y_def using x by simp
    have n: "0 < n" "real n < y" "y \<le> real n + 1"
      using y unfolding n_def by (auto simp: nat_less_iff) linarith+
    have b: "2 ^ (k - 1) \<le> n" "n < 2 ^ k"
      using floorlog_bounds [of n 2] n(1) unfolding k_def by auto
    have k: "0 < k" using b(2) n(1) by (cases k) auto
    have e: "exponent x = - int k" using False by (simp add: exponent_def n_def k_def y_def)
    have "real n + 1 \<le> 2 ^ k" using b(2)
      by (metis Suc_leI of_nat_Suc of_nat_le_iff of_nat_numeral of_nat_power add.commute)
    then have yk: "y \<le> 2 ^ k" using n(3) by linarith
    have "(2::real) ^ (k - 1) \<le> real n" using b(1)
      by (metis of_nat_le_iff of_nat_numeral of_nat_power)
    then have ky: "2 ^ (k - 1) < y" using n(2) by linarith
    have xy: "\<bar>x\<bar> = 1 / y" unfolding y_def by simp
    have "2 powi (exponent x) = 1 / (2::real) ^ k"
      unfolding e by (simp add: power_int_minus_divide)
    also have "\<dots> \<le> 1 / y" using yk y by (intro divide_left_mono) auto
    finally have 1: "2 powi (exponent x) \<le> \<bar>x\<bar>" unfolding xy .
    have "exponent x + 1 = - int (k - 1)" using e k by simp
    then have "2 powi (exponent x + 1) = 1 / (2::real) ^ (k - 1)"
      by (simp add: power_int_minus_divide)
    moreover have "1 / y < 1 / (2::real) ^ (k - 1)"
      using ky y by (intro divide_strict_left_mono) (auto intro!: mult_pos_pos)
    ultimately have "\<bar>x\<bar> < 2 powi (exponent x + 1)" unfolding xy by simp
    then show ?thesis using 1 by simp
  qed
  then show "2 powi (exponent x) \<le> \<bar>x\<bar>" and "\<bar>x\<bar> < 2 powi (exponent x + 1)" by simp_all
qed


lemma ulp_pos: "0 < ulp x"
  by (simp add: ulp_def)

lemma ulp_scaled_bounds:
  assumes "x \<noteq> 0"
  shows "2 ^ 52 \<le> \<bar>x\<bar> / ulp x" and "\<bar>x\<bar> / ulp x < 2 ^ 53"
proof -
  have u: "2 powi (exponent x) = 2 ^ 52 * ulp x" "2 powi (exponent x + 1) = 2 ^ 53 * ulp x"
    unfolding ulp_def by (simp_all add: power_int_diff power_int_add)
  show "2 ^ 52 \<le> \<bar>x\<bar> / ulp x"
    using exponent_bounds(1) [OF assms] ulp_pos [of x] unfolding u
    by (simp add: pos_le_divide_eq)
  show "\<bar>x\<bar> / ulp x < 2 ^ 53"
    using exponent_bounds(2) [OF assms] ulp_pos [of x] unfolding u
    by (simp add: pos_divide_less_eq)
qed

text \<open>A double of magnitude at least the binade of x lies on the grid of x.\<close>

lemma on_grid:
  assumes r: "is_double r" and x: "x \<noteq> 0" and b: "2 powi (exponent x) \<le> \<bar>r\<bar>"
  shows "\<exists>k :: int. r = of_int k * ulp x"
proof -
  obtain m e :: int where m: "\<bar>m\<bar> < 2 ^ 53" and re: "r = of_int m * 2 powi e"
    using r unfolding is_double_def by blast
  have "exponent x - 52 \<le> e"
  proof (rule ccontr)
    assume "\<not> exponent x - 52 \<le> e"
    then have "e \<le> exponent x - 53" by simp
    then have "(2::real) powi e \<le> 2 powi (exponent x - 53)"
      by (intro power_int_increasing) auto
    moreover have "\<bar>r\<bar> = real_of_int \<bar>m\<bar> * 2 powi e"
      unfolding re by (simp add: abs_mult)
    moreover have "real_of_int \<bar>m\<bar> < 2 ^ 53" using m by (metis of_int_less_numeral_power_cancel_iff)
    ultimately have "\<bar>r\<bar> < 2 ^ 53 * 2 powi (exponent x - 53)"
      by (smt (verit, best) mult_less_le_imp_less mult_nonneg_nonneg of_int_nonneg abs_ge_zero
          zero_less_power_int mult_strict_right_mono mult_left_mono zero_le_power)
    also have "\<dots> = 2 powi (exponent x)" by (simp add: power_int_diff)
    finally show False using b by simp
  qed
  then obtain d :: nat where d: "e = exponent x - 52 + int d"
    by (metis zle_iff_zadd)
  have "(2::real) powi e = 2 ^ d * ulp x"
    unfolding d ulp_def by (simp add: power_int_add)
  then have "r = of_int (m * 2 ^ d) * ulp x" unfolding re by simp
  then show ?thesis by blast
qed

lemma round_double_le:
  assumes r: "is_double r" and le: "x \<le> r"
  shows "round_double x \<le> r"
proof (cases "x = 0")
  case True
  then show ?thesis using le by (simp add: round_double_def)
next
  case False
  note s = ulp_scaled_bounds [OF False]
  note u = ulp_pos [of x]
  show ?thesis
  proof (cases "2 powi (exponent x) \<le> \<bar>r\<bar>")
    case True
    obtain k :: int where k: "r = of_int k * ulp x" using on_grid [OF r False True] by blast
    have "x / ulp x \<le> of_int k" using le u unfolding k by (simp add: pos_divide_le_eq)
    then have "round_half_even (x / ulp x) \<le> k" by (rule round_half_even_le)
    then have "ulp x * of_int (round_half_even (x / ulp x)) \<le> ulp x * of_int k"
      using u by simp
    then show ?thesis using False unfolding k round_double_def by (simp add: mult.commute)
  next
    case F: False
    have xb: "2 powi (exponent x) \<le> \<bar>x\<bar>" by (rule exponent_bounds(1) [OF False])
    have xneg: "x < 0" using F xb le by linarith
    have "x / ulp x \<le> of_int (- (2 ^ 52))"
      using s(1) xneg u by (simp add: abs_if divide_simps split: if_splits) 
    then have "round_half_even (x / ulp x) \<le> - (2 ^ 52)" by (rule round_half_even_le)
    then have "ulp x * of_int (round_half_even (x / ulp x)) \<le> ulp x * of_int (- (2 ^ 52))"
      using u by (simp del: of_int_minus)
    also have "\<dots> = - (2 powi (exponent x))"
      unfolding ulp_def by (simp add: power_int_diff)
    finally show ?thesis using False F unfolding round_double_def by simp
  qed
qed

lemma round_double_ge:
  assumes r: "is_double r" and le: "r \<le> x"
  shows "r \<le> round_double x"
proof (cases "x = 0")
  case True
  then show ?thesis using le by (simp add: round_double_def)
next
  case False
  note s = ulp_scaled_bounds [OF False]
  note u = ulp_pos [of x]
  show ?thesis
  proof (cases "2 powi (exponent x) \<le> \<bar>r\<bar>")
    case True
    obtain k :: int where k: "r = of_int k * ulp x" using on_grid [OF r False True] by blast
    have "of_int k \<le> x / ulp x" using le u unfolding k by (simp add: pos_le_divide_eq)
    then have "k \<le> round_half_even (x / ulp x)" by (rule round_half_even_ge)
    then have "ulp x * of_int k \<le> ulp x * of_int (round_half_even (x / ulp x))"
      using u by simp
    then show ?thesis using False unfolding k round_double_def by (simp add: mult.commute)
  next
    case F: False
    have xb: "2 powi (exponent x) \<le> \<bar>x\<bar>" by (rule exponent_bounds(1) [OF False])
    have xpos: "0 < x" using F xb le by linarith
    have "of_int (2 ^ 52) \<le> x / ulp x"
      using s(1) xpos u by (simp add: abs_if split: if_splits)
    then have "2 ^ 52 \<le> round_half_even (x / ulp x)" by (rule round_half_even_ge)
    then have "ulp x * of_int (2 ^ 52) \<le> ulp x * of_int (round_half_even (x / ulp x))"
      using u by simp
    moreover have "ulp x * of_int (2 ^ 52) = 2 powi (exponent x)"
      unfolding ulp_def by (simp add: power_int_diff)
    ultimately show ?thesis using False F unfolding round_double_def by simp
  qed
qed

lemma round_double_fixes: "is_double r \<Longrightarrow> round_double r = r"
  using round_double_le [of r r] round_double_ge [of r r] by simp

lemma is_double_round: "is_double (round_double x)"
proof (cases "x = 0")
  case True
  have "(0::real) = of_int 0 * 2 powi 0" by simp
  then show ?thesis unfolding True round_double_def is_double_def
    by (metis abs_zero zero_less_numeral zero_less_power)
next
  case False
  define n where "n = round_half_even (x / ulp x)"
  note s = ulp_scaled_bounds [OF False]
  have "\<bar>x / ulp x\<bar> < 2 ^ 53" using s(2) ulp_pos [of x] by simp
  then have "x / ulp x \<le> 2 ^ 53" "- (2 ^ 53) \<le> x / ulp x" by linarith+
  then have "x / ulp x \<le> of_int (2 ^ 53)" "of_int (- (2 ^ 53)) \<le> x / ulp x" by simp_all
  then have "n \<le> 2 ^ 53" "- (2 ^ 53) \<le> n"
    unfolding n_def using round_half_even_le round_half_even_ge by blast+
  then consider "\<bar>n\<bar> < 2 ^ 53" | "n = 2 ^ 53" | "n = - (2 ^ 53)" by linarith
  moreover have rd: "round_double x = ulp x * of_int n"
    using False by (simp add: round_double_def n_def)
  ultimately show ?thesis
  proof cases
    case 1
    have "round_double x = of_int n * 2 powi (exponent x - 52)"
      unfolding rd by (simp add: ulp_def)
    then show ?thesis unfolding is_double_def using 1 by blast
  next
    case 2
    have "round_double x = of_int 1 * 2 powi (exponent x + 1)"
      unfolding rd 2 by (simp add: ulp_def power_int_diff power_int_add)
    moreover have "\<bar>1::int\<bar> < 2 ^ 53" by simp
    ultimately show ?thesis unfolding is_double_def by blast
  next
    case 3
    have "round_double x = of_int (- 1) * 2 powi (exponent x + 1)"
      unfolding rd 3 by (simp add: ulp_def power_int_diff power_int_add)
    moreover have "\<bar>- 1::int\<bar> < 2 ^ 53" by simp
    ultimately show ?thesis unfolding is_double_def by blast
  qed
qed


lemma is_double_of_int: "\<bar>k\<bar> < 2 ^ 53 \<Longrightarrow> is_double (of_int k)"
  unfolding is_double_def by (metis mult.right_neutral power_int_0_right)


lemma is_double_0: "is_double 0"
  using is_double_of_int [of 0] by simp

lemma is_double_1: "is_double 1"
  using is_double_of_int [of 1] by simp

lemma py_float_exact: "\<bar>n\<bar> < 2 ^ 53 \<Longrightarrow> py_float n = of_int n"
  unfolding py_float_def by (rule round_double_fixes) (rule is_double_of_int)

lemma round_double_nonneg: "0 \<le> x \<Longrightarrow> 0 \<le> round_double x"
  by (rule round_double_ge [OF is_double_0])

lemma round_half_even_eq:
  assumes a: "\<bar>y - of_int n\<bar> < 1 / 2"
  shows "round_half_even y = n"
proof -
  define f where "f = \<lfloor>y\<rfloor>"
  have f: "of_int f \<le> y" "y < of_int f + 1" unfolding f_def by linarith+
  have "n = f \<or> n = f + 1"
  proof (rule ccontr)
    assume "\<not> (n = f \<or> n = f + 1)"
    then have "n \<le> f - 1 \<or> f + 2 \<le> n" by linarith
    then have "real_of_int n \<le> real_of_int (f - 1) \<or> real_of_int (f + 2) \<le> real_of_int n"
      by (simp only: of_int_le_iff)
    then show False using a f by auto
  qed
  then show ?thesis using a f
    unfolding round_half_even_def Let_def f_def [symmetric] by auto
qed

lemma exponent_eq:
  assumes "2 powi e \<le> \<bar>x\<bar>" "\<bar>x\<bar> < 2 powi (e + 1)"
  shows "exponent x = e"
proof -
  have p: "0 < (2::real) powi e" by simp
  have x: "x \<noteq> 0"
  proof
    assume "x = 0"
    then have "\<bar>x\<bar> = 0" by simp
    then show False using assms(1) p by linarith
  qed
  note b = exponent_bounds [OF x]
  have l1: "(2::real) powi e < 2 powi (exponent x + 1)" using assms(1) b(2) by linarith
  have 1: "e < exponent x + 1"
  proof (rule ccontr)
    assume "\<not> e < exponent x + 1"
    then have "exponent x + 1 \<le> e" by simp
    then have "(2::real) powi (exponent x + 1) \<le> 2 powi e"
      by (intro power_int_increasing) auto
    then show False using l1 by linarith
  qed
  have l2: "(2::real) powi (exponent x) < 2 powi (e + 1)" using assms(2) b(1) by linarith
  have 2: "exponent x < e + 1"
  proof (rule ccontr)
    assume "\<not> exponent x < e + 1"
    then have "e + 1 \<le> exponent x" by simp
    then have "(2::real) powi (e + 1) \<le> 2 powi (exponent x)"
      by (intro power_int_increasing) auto
    then show False using l2 by linarith
  qed
  show ?thesis using 1 2 by simp
qed

text \<open>A certificate for one rounding: the scaled value lies in the binade and next to n.\<close>

lemma round_double_eq:
  assumes n: "n \<in> \<int>"
    and lo: "2 ^ 52 * 2 powi e \<le> \<bar>x\<bar>" and hi: "\<bar>x\<bar> < 2 ^ 53 * 2 powi e"
    and near: "\<bar>x - n * 2 powi e\<bar> < 2 powi e / 2"
  shows "round_double x = n * 2 powi e"
proof -
  obtain k :: int where k: "n = of_int k" using n by (rule Ints_cases)
  define s :: real where "s = 2 powi e"
  have s: "0 < s" unfolding s_def by simp
  have "2 powi (e + 52) \<le> \<bar>x\<bar>" "\<bar>x\<bar> < 2 powi (e + 52 + 1)"
    using lo hi by (simp_all add: power_int_add)
  then have ex: "exponent x = e + 52" by (rule exponent_eq)
  have u: "ulp x = s" unfolding ulp_def ex s_def by simp
  have x: "x \<noteq> 0"
  proof
    assume "x = 0"
    then have "\<bar>x\<bar> = 0" by simp
    moreover have "0 < 2 ^ 52 * s" using s by simp
    ultimately show False using lo unfolding s_def [symmetric] by linarith
  qed
  have "x / s - of_int k = (x - n * s) / s" using s unfolding k by (simp add: field_simps)
  then have "\<bar>x / s - of_int k\<bar> = \<bar>x - n * s\<bar> / s" using s by simp
  also have "\<dots> < (s / 2) / s" using near s unfolding s_def [symmetric]
    by (intro divide_strict_right_mono) auto
  also have "\<dots> = 1 / 2" using s by simp
  finally have "round_half_even (x / s) = k" by (rule round_half_even_eq)
  then show ?thesis using x unfolding round_double_def u k s_def [symmetric] by simp
qed

lemma is_doubleI: "n \<in> \<int> \<Longrightarrow> \<bar>n\<bar> < 2 ^ 53 \<Longrightarrow> r = n * 2 powi e \<Longrightarrow> is_double r"
proof -
  assume n: "n \<in> \<int>" and b: "\<bar>n\<bar> < 2 ^ 53" and r: "r = n * 2 powi e"
  obtain k :: int where k: "n = of_int k" using n by (rule Ints_cases)
  have "\<bar>k\<bar> < 2 ^ 53" using b unfolding k
    by (metis of_int_abs of_int_less_numeral_power_cancel_iff)
  then show ?thesis unfolding is_double_def using r k by blast
qed

subsection \<open>Steps of the pipeline\<close>

lemma and_then_ret: "and_then (ret x) f = f x"
  by (rule ext) (simp add: and_then_def ret_def split: prod.splits)

lemma and_then_InrE:
  assumes "and_then m f g = (Inr y, g'', l)"
  obtains x g' l1 l2 where "m g = (Inr x, g', l1)" "f x g' = (Inr y, g'', l2)" "l = l1 @ l2"
  using assms by (auto simp: and_then_def split: prod.splits sum.splits)

lemma call_run: "call c g = (Inr (), g, [c])"
  by (simp add: call_def)

lemma answer_None: "answer None = ret ()"
  by (simp add: answer_def)

lemma uniform_run: "uniform b g = (Inr (np_uniform b (g 0)), (\<lambda>k. g (Suc k)), [])"
  by (simp add: uniform_def and_then_def random_sample_def ret_def)

lemma video_fx_run: "video_fx E f video g = (Inr (apply_fx E f video), g, [VideoFx f])"
  by (simp add: video_fx_def and_then_def call_def ret_def)

lemma quietD: "quiet m \<Longrightarrow> \<exists>x g'. m g = (Inr x, g', [])"
  by (simp add: quiet_def)

lemma quiet_ret: "quiet (ret x)"
  by (simp add: quiet_def ret_def)

lemma quiet_random_sample: "quiet random_sample"
  by (simp add: quiet_def random_sample_def)

lemma quiet_rand: "quiet (rand n)"
  by (simp add: quiet_def rand_def)

lemma quiet_and_then:
  assumes m: "quiet m" and f: "\<And>x. quiet (f x)"
  shows "quiet (and_then m f)"
  unfolding quiet_def
proof
  fix g
  from m obtain x g' where 1: "m g = (Inr x, g', [])"
    unfolding quiet_def by blast
  from f obtain y g'' where 2: "f x g' = (Inr y, g'', [])"
    unfolding quiet_def by blast
  show "\<exists>x g'. and_then m f g = (Inr x, g', [])"
    using 1 2 by (simp add: and_then_def)
qed

lemma quiet_uniform: "quiet (uniform b)"
  by (simp add: uniform_def quiet_and_then quiet_random_sample quiet_ret)

lemma quiet_randint: "lo < hi \<Longrightarrow> quiet (randint lo hi)"
  by (simp add: randint_def quiet_and_then quiet_random_sample quiet_ret)

lemma quiet_choice: "quiet (choice xs)"
  by (simp add: choice_def quiet_and_then quiet_random_sample quiet_ret)

lemmas quiet_intros =
  quiet_and_then quiet_ret quiet_random_sample quiet_rand quiet_uniform quiet_randint quiet_choice

text \<open>No \<open>randint\<close> of the overlay code can raise: every upper bound is guarded.\<close>

lemma quiet_rectangle: "quiet (rectangle_element video opacity)"
  unfolding rectangle_element_def by (intro quiet_intros) simp_all

lemma quiet_noise: "quiet (noise_element video opacity)"
  unfolding noise_element_def by (auto split: prod.splits intro!: quiet_intros)

lemma quiet_draw_lines: "0 < clip_h video \<Longrightarrow> quiet (draw_lines n video)"
  by (induction n) (auto intro!: quiet_intros)

lemma quiet_lines: "0 < clip_h video \<Longrightarrow> quiet (lines_element video opacity)"
  unfolding lines_element_def by (auto intro!: quiet_intros quiet_draw_lines)

lemma quiet_draw_circles:
  "0 < clip_h video \<Longrightarrow> 0 < clip_w video \<Longrightarrow> quiet (draw_circles n video)"
  by (induction n) (auto intro!: quiet_intros)

lemma quiet_circle:
  "0 < clip_h video \<Longrightarrow> 0 < clip_w video \<Longrightarrow> quiet (circle_element video opacity)"
  unfolding circle_element_def by (auto intro!: quiet_intros quiet_draw_circles)

lemma quiet_gradient: "quiet (gradient_element video opacity)"
  unfolding gradient_element_def by (auto split: prod.splits intro!: quiet_intros)

lemma quiet_make_element: "quiet (make_element P video)"
proof (cases "min (clip_w video) (clip_h video) \<ge> 2")
  case True
  then have "0 < clip_h video" "0 < clip_w video" by auto
  then show ?thesis
    unfolding make_element_def
    by (auto intro!: quiet_intros quiet_rectangle quiet_noise quiet_lines quiet_circle
        quiet_gradient)
next
  case False
  then have eq: "(2 \<le> min (clip_w video) (clip_h video)) = False" by simp
  show ?thesis
    unfolding make_element_def eq
    by (simp add: and_then_ret quiet_and_then quiet_uniform quiet_rectangle)
qed

lemma quiet_pick_bitrate: "quiet (pick_bitrate P video)"
  unfolding pick_bitrate_def by (intro quiet_intros)

lemma quiet_make_color_filter: "quiet (make_color_filter P video)"
  unfolding make_color_filter_def Let_def by (intro quiet_intros)

subsection \<open>The resolution cap\<close>



lemma fit_scaled:
  assumes "0 < max_dim" "max width height = max_side" "max_dim < max_side"
    and "fdiv (py_float max_dim) (py_float max_side) = scale"
    and "py_int (fmul (py_float width) scale) = new_w"
    and "py_int (fmul (py_float height) scale) = new_h"
  shows "fit_within_max_dim width height max_dim = (new_w, new_h, scale)"
  using assms by (simp add: fit_within_max_dim_def Let_def)


text \<open>
  The bounds are bounds on sizes of a picture. A negative width is scaled towards zero,
  which is upwards; and an integer of 55 bits is rounded when it becomes a float, here
  \<open>2 ^ 54 + 5\<close> under the cap \<open>2 ^ 54 + 3\<close>, both to \<open>2 ^ 54 + 4\<close>: past the cap.
\<close>

lemma fit_within_max_dim_negative_width:
  "fit_within_max_dim (- 7) 1000 720 = (- 5, 720, 6485183463413514 * 2 powi (- 53))"
proof (rule fit_scaled)
  have f: "py_float 720 = 720" "py_float 1000 = 1000" "py_float (- 7) = - 7"
    using py_float_exact [of 720] py_float_exact [of 1000] py_float_exact [of "- 7"]
    by simp_all
  show "fdiv (py_float 720) (py_float 1000) = 6485183463413514 * 2 powi (- 53)"
    unfolding fdiv_def f by (rule round_double_eq) simp_all
  have "fmul (- 7) (6485183463413514 * 2 powi (- 53)) = - 5674535530486825 * 2 powi (- 50)"
    unfolding fmul_def by (rule round_double_eq) simp_all
  then show "py_int (fmul (py_float (- 7)) (6485183463413514 * 2 powi (- 53))) = - 5"
    unfolding f by (simp add: py_int_def)
  have "fmul 1000 (6485183463413514 * 2 powi (- 53)) = 6333186975989760 * 2 powi (- 43)"
    unfolding fmul_def by (rule round_double_eq) simp_all
  then show "py_int (fmul (py_float 1000) (6485183463413514 * 2 powi (- 53))) = 720"
    unfolding f by (simp add: py_int_def)
qed simp_all

lemma fit_within_max_dim_large_width:
  "fit_within_max_dim 18014398509481989 1 18014398509481987 = (18014398509481988, 1, 1)"
proof (rule fit_scaled)
  have a: "py_float 18014398509481989 = 4503599627370497 * 2 powi 2"
    unfolding py_float_def by (rule round_double_eq) simp_all
  have b: "py_float 18014398509481987 = 4503599627370497 * 2 powi 2"
    unfolding py_float_def by (rule round_double_eq) simp_all
  have c: "py_float 1 = 1" using py_float_exact [of 1] by simp
  have one: "round_double 1 = 1" by (rule round_double_fixes [OF is_double_1])
  show "fdiv (py_float 18014398509481987) (py_float 18014398509481989) = 1"
    unfolding fdiv_def a b using one by simp
  have "fmul (4503599627370497 * 2 powi 2) 1 = 4503599627370497 * 2 powi 2"
    unfolding fmul_def by (rule round_double_eq) simp_all
  then show "py_int (fmul (py_float 18014398509481989) 1) = 18014398509481988"
    unfolding a by (simp add: py_int_def)
  show "py_int (fmul (py_float 1) 1) = 1"
    unfolding c fmul_def using one by (simp add: py_int_def)
qed simp_all

subsection \<open>The strength profiles\<close>

lemma strength_params_cases:
  "strength_params strength =
     (if lower strength = ''low'' then low_profile
      else if lower strength = ''high'' then high_profile
      else medium_profile)"
  by (simp add: strength_params_def lower_def lower_char_def)

lemma is_double_literal: "is_double (literal x)"
  unfolding literal_def by (rule is_double_round)

lemma is_double_minus: "is_double (- r) = is_double r"
proof -
  have "is_double (- r)" if d: "is_double r" for r
  proof -
    obtain m e :: int where "\<bar>m\<bar> < 2 ^ 53" "r = of_int m * 2 powi e"
      using d unfolding is_double_def by blast
    then have "\<bar>- m\<bar> < 2 ^ 53" "- r = of_int (- m) * 2 powi e" by simp_all
    then show ?thesis unfolding is_double_def by blast
  qed
  from this [of r] this [of "- r"] show ?thesis by auto
qed

text \<open>
  The double of every decimal literal of the three profiles, as significand and exponent.
\<close>

lemma literal_0_95: "literal 0.95 = 8556839292003942 * 2 powi (- 53)"
  unfolding literal_def by (rule round_double_eq) simp_all

lemma literal_1_05: "literal 1.05 = 4728779608739021 * 2 powi (- 52)"
  unfolding literal_def by (rule round_double_eq) simp_all

lemma literal_0_98: "literal 0.98 = 8827055269646172 * 2 powi (- 53)"
  unfolding literal_def by (rule round_double_eq) simp_all

lemma literal_1_02: "literal 1.02 = 4593671619917906 * 2 powi (- 52)"
  unfolding literal_def by (rule round_double_eq) simp_all

lemma literal_0_5: "literal 0.5 = 4503599627370496 * 2 powi (- 53)"
  unfolding literal_def by (rule round_double_eq) simp_all

lemma literal_0_4: "literal 0.4 = 7205759403792794 * 2 powi (- 54)"
  unfolding literal_def by (rule round_double_eq) simp_all

lemma literal_0_6: "literal 0.6 = 5404319552844595 * 2 powi (- 53)"
  unfolding literal_def by (rule round_double_eq) simp_all

lemma literal_0_06: "literal 0.06 = 8646911284551352 * 2 powi (- 57)"
  unfolding literal_def by (rule round_double_eq) simp_all

lemma literal_0_12: "literal 0.12 = 8646911284551352 * 2 powi (- 56)"
  unfolding literal_def by (rule round_double_eq) simp_all

lemma literal_0_9: "literal 0.9 = 8106479329266893 * 2 powi (- 53)"
  unfolding literal_def by (rule round_double_eq) simp_all

lemma literal_1_1: "literal 1.1 = 4953959590107546 * 2 powi (- 52)"
  unfolding literal_def by (rule round_double_eq) simp_all

lemma literal_1_4: "literal 1.4 = 6305039478318694 * 2 powi (- 52)"
  unfolding literal_def by (rule round_double_eq) simp_all

lemma literal_4_0: "literal 4.0 = 4503599627370496 * 2 powi (- 50)"
  unfolding literal_def by (rule round_double_eq) simp_all

lemma literal_0_8: "literal 0.8 = 7205759403792794 * 2 powi (- 53)"
  unfolding literal_def by (rule round_double_eq) simp_all

lemma literal_0_15: "literal 0.15 = 5404319552844595 * 2 powi (- 55)"
  unfolding literal_def by (rule round_double_eq) simp_all

lemma literal_0_25: "literal 0.25 = 4503599627370496 * 2 powi (- 54)"
  unfolding literal_def by (rule round_double_eq) simp_all

lemma literal_0_7: "literal 0.7 = 6305039478318694 * 2 powi (- 53)"
  unfolding literal_def by (rule round_double_eq) simp_all

lemma literal_1_3: "literal 1.3 = 5854679515581645 * 2 powi (- 52)"
  unfolding literal_def by (rule round_double_eq) simp_all

lemma literal_0_92: "literal 0.92 = 8286623314361713 * 2 powi (- 53)"
  unfolding literal_def by (rule round_double_eq) simp_all

lemma literal_1_08: "literal 1.08 = 4863887597560136 * 2 powi (- 52)"
  unfolding literal_def by (rule round_double_eq) simp_all

lemma literal_2_0: "literal 2.0 = 4503599627370496 * 2 powi (- 51)"
  unfolding literal_def by (rule round_double_eq) simp_all

lemma literal_0_10: "literal 0.10 = 7205759403792794 * 2 powi (- 56)"
  unfolding literal_def by (rule round_double_eq) simp_all

lemma literal_0_18: "literal 0.18 = 6485183463413514 * 2 powi (- 55)"
  unfolding literal_def by (rule round_double_eq) simp_all

lemma literal_1_2: "literal 1.2 = 5404319552844595 * 2 powi (- 52)"
  unfolding literal_def by (rule round_double_eq) simp_all

text \<open>
  The width of every range of the three profiles is itself a double: the subtraction
  \<open>hi - lo\<close> that \<open>np.random.uniform\<close> makes is exact for them.
\<close>

lemma range_0_95_1_05: "exact_range (literal 0.95, literal 1.05)"
proof -
  have "is_double (literal 1.05 - literal 0.95)"
    unfolding literal_0_95 literal_1_05
    by (rule is_doubleI [of 7205759403792800 _ "- 56"]) simp_all
  moreover have "literal 0.95 \<le> literal 1.05"
    unfolding literal_0_95 literal_1_05 by simp
  ultimately show ?thesis
    by (simp add: exact_range_def is_double_literal is_double_minus)
qed

lemma range_0_98_1_02: "exact_range (literal 0.98, literal 1.02)"
proof -
  have "is_double (literal 1.02 - literal 0.98)"
    unfolding literal_0_98 literal_1_02
    by (rule is_doubleI [of 5764607523034240 _ "- 57"]) simp_all
  moreover have "literal 0.98 \<le> literal 1.02"
    unfolding literal_0_98 literal_1_02 by simp
  ultimately show ?thesis
    by (simp add: exact_range_def is_double_literal is_double_minus)
qed

lemma range_pm_0_5: "exact_range (- literal 0.5, literal 0.5)"
proof -
  have "is_double (literal 0.5 - (- literal 0.5))"
    unfolding literal_0_5
    by (rule is_doubleI [of 4503599627370496 _ "- 52"]) simp_all
  moreover have "- literal 0.5 \<le> literal 0.5"
    unfolding literal_0_5 by simp
  ultimately show ?thesis
    by (simp add: exact_range_def is_double_literal is_double_minus)
qed

lemma range_0_4_0_6: "exact_range (literal 0.4, literal 0.6)"
proof -
  have "is_double (literal 0.6 - literal 0.4)"
    unfolding literal_0_4 literal_0_6
    by (rule is_doubleI [of 7205759403792792 _ "- 55"]) simp_all
  moreover have "literal 0.4 \<le> literal 0.6"
    unfolding literal_0_4 literal_0_6 by simp
  ultimately show ?thesis
    by (simp add: exact_range_def is_double_literal is_double_minus)
qed

lemma range_0_06_0_12: "exact_range (literal 0.06, literal 0.12)"
proof -
  have "is_double (literal 0.12 - literal 0.06)"
    unfolding literal_0_06 literal_0_12
    by (rule is_doubleI [of 8646911284551352 _ "- 57"]) simp_all
  moreover have "literal 0.06 \<le> literal 0.12"
    unfolding literal_0_06 literal_0_12 by simp
  ultimately show ?thesis
    by (simp add: exact_range_def is_double_literal is_double_minus)
qed

lemma range_0_9_1_1: "exact_range (literal 0.9, literal 1.1)"
proof -
  have "is_double (literal 1.1 - literal 0.9)"
    unfolding literal_0_9 literal_1_1
    by (rule is_doubleI [of 7205759403792796 _ "- 55"]) simp_all
  moreover have "literal 0.9 \<le> literal 1.1"
    unfolding literal_0_9 literal_1_1 by simp
  ultimately show ?thesis
    by (simp add: exact_range_def is_double_literal is_double_minus)
qed

lemma range_0_6_1_4: "exact_range (literal 0.6, literal 1.4)"
proof -
  have "is_double (literal 1.4 - literal 0.6)"
    unfolding literal_0_6 literal_1_4
    by (rule is_doubleI [of 7205759403792793 _ "- 53"]) simp_all
  moreover have "literal 0.6 \<le> literal 1.4"
    unfolding literal_0_6 literal_1_4 by simp
  ultimately show ?thesis
    by (simp add: exact_range_def is_double_literal is_double_minus)
qed

lemma range_pm_4_0: "exact_range (- literal 4.0, literal 4.0)"
proof -
  have "is_double (literal 4.0 - (- literal 4.0))"
    unfolding literal_4_0
    by (rule is_doubleI [of 4503599627370496 _ "- 49"]) simp_all
  moreover have "- literal 4.0 \<le> literal 4.0"
    unfolding literal_4_0 by simp
  ultimately show ?thesis
    by (simp add: exact_range_def is_double_literal is_double_minus)
qed

lemma range_0_6_0_8: "exact_range (literal 0.6, literal 0.8)"
proof -
  have "is_double (literal 0.8 - literal 0.6)"
    unfolding literal_0_6 literal_0_8
    by (rule is_doubleI [of 7205759403792796 _ "- 55"]) simp_all
  moreover have "literal 0.6 \<le> literal 0.8"
    unfolding literal_0_6 literal_0_8 by simp
  ultimately show ?thesis
    by (simp add: exact_range_def is_double_literal is_double_minus)
qed

lemma range_0_15_0_25: "exact_range (literal 0.15, literal 0.25)"
proof -
  have "is_double (literal 0.25 - literal 0.15)"
    unfolding literal_0_15 literal_0_25
    by (rule is_doubleI [of 7205759403792794 _ "- 56"]) simp_all
  moreover have "literal 0.15 \<le> literal 0.25"
    unfolding literal_0_15 literal_0_25 by simp
  ultimately show ?thesis
    by (simp add: exact_range_def is_double_literal is_double_minus)
qed

lemma range_0_7_1_3: "exact_range (literal 0.7, literal 1.3)"
proof -
  have "is_double (literal 1.3 - literal 0.7)"
    unfolding literal_0_7 literal_1_3
    by (rule is_doubleI [of 5404319552844596 _ "- 53"]) simp_all
  moreover have "literal 0.7 \<le> literal 1.3"
    unfolding literal_0_7 literal_1_3 by simp
  ultimately show ?thesis
    by (simp add: exact_range_def is_double_literal is_double_minus)
qed

lemma range_0_92_1_08: "exact_range (literal 0.92, literal 1.08)"
proof -
  have "is_double (literal 1.08 - literal 0.92)"
    unfolding literal_0_92 literal_1_08
    by (rule is_doubleI [of 5764607523034236 _ "- 55"]) simp_all
  moreover have "literal 0.92 \<le> literal 1.08"
    unfolding literal_0_92 literal_1_08 by simp
  ultimately show ?thesis
    by (simp add: exact_range_def is_double_literal is_double_minus)
qed

lemma range_pm_2_0: "exact_range (- literal 2.0, literal 2.0)"
proof -
  have "is_double (literal 2.0 - (- literal 2.0))"
    unfolding literal_2_0
    by (rule is_doubleI [of 4503599627370496 _ "- 50"]) simp_all
  moreover have "- literal 2.0 \<le> literal 2.0"
    unfolding literal_2_0 by simp
  ultimately show ?thesis
    by (simp add: exact_range_def is_double_literal is_double_minus)
qed

lemma range_0_5_0_7: "exact_range (literal 0.5, literal 0.7)"
proof -
  have "is_double (literal 0.7 - literal 0.5)"
    unfolding literal_0_5 literal_0_7
    by (rule is_doubleI [of 7205759403792792 _ "- 55"]) simp_all
  moreover have "literal 0.5 \<le> literal 0.7"
    unfolding literal_0_5 literal_0_7 by simp
  ultimately show ?thesis
    by (simp add: exact_range_def is_double_literal is_double_minus)
qed

lemma range_0_10_0_18: "exact_range (literal 0.10, literal 0.18)"
proof -
  have "is_double (literal 0.18 - literal 0.10)"
    unfolding literal_0_10 literal_0_18
    by (rule is_doubleI [of 5764607523034234 _ "- 56"]) simp_all
  moreover have "literal 0.10 \<le> literal 0.18"
    unfolding literal_0_10 literal_0_18 by simp
  ultimately show ?thesis
    by (simp add: exact_range_def is_double_literal is_double_minus)
qed

lemma range_0_8_1_2: "exact_range (literal 0.8, literal 1.2)"
proof -
  have "is_double (literal 1.2 - literal 0.8)"
    unfolding literal_0_8 literal_1_2
    by (rule is_doubleI [of 7205759403792792 _ "- 54"]) simp_all
  moreover have "literal 0.8 \<le> literal 1.2"
    unfolding literal_0_8 literal_1_2 by simp
  ultimately show ?thesis
    by (simp add: exact_range_def is_double_literal is_double_minus)
qed

lemmas profile_ranges =
  range_0_95_1_05 range_0_98_1_02 range_pm_0_5 range_0_4_0_6
  range_0_06_0_12 range_0_9_1_1 range_0_6_1_4 range_pm_4_0
  range_0_6_0_8 range_0_15_0_25 range_0_7_1_3 range_0_92_1_08
  range_pm_2_0 range_0_5_0_7 range_0_10_0_18 range_0_8_1_2

lemma profile_exact:
  "exact_range (p_resize (strength_params s))" "exact_range (p_speed (strength_params s))"
  "exact_range (p_rotate (strength_params s))" "exact_range (p_bitrate (strength_params s))"
  "exact_range (p_density (strength_params s))" "exact_range (p_opacity (strength_params s))"
proof -
  have l: "exact_range (p_resize low_profile)" "exact_range (p_speed low_profile)"
    "exact_range (p_rotate low_profile)" "exact_range (p_bitrate low_profile)"
    "exact_range (p_density low_profile)" "exact_range (p_opacity low_profile)"
    by (simp_all only: low_profile_def profile.select_convs profile_ranges)
  have h: "exact_range (p_resize high_profile)" "exact_range (p_speed high_profile)"
    "exact_range (p_rotate high_profile)" "exact_range (p_bitrate high_profile)"
    "exact_range (p_density high_profile)" "exact_range (p_opacity high_profile)"
    by (simp_all only: high_profile_def profile.select_convs profile_ranges)
  have m: "exact_range (p_resize medium_profile)" "exact_range (p_speed medium_profile)"
    "exact_range (p_rotate medium_profile)" "exact_range (p_bitrate medium_profile)"
    "exact_range (p_density medium_profile)" "exact_range (p_opacity medium_profile)"
    by (simp_all only: medium_profile_def profile.select_convs profile_ranges)
  have "strength_params s = low_profile \<or> strength_params s = high_profile
      \<or> strength_params s = medium_profile"
    by (simp add: strength_params_cases)
  then show "exact_range (p_resize (strength_params s))"
    "exact_range (p_speed (strength_params s))" "exact_range (p_rotate (strength_params s))"
    "exact_range (p_bitrate (strength_params s))" "exact_range (p_density (strength_params s))"
    "exact_range (p_opacity (strength_params s))"
    using l h m by auto
qed

text \<open>
  A draw from a range of exact width lies in the range, bounds included: none of the three
  roundings of \<open>lo + (hi - lo) * u\<close> leaves it.
\<close>

lemma np_uniform_in_range:
  assumes b: "exact_range b" and u: "0 \<le> u" "u < 1"
  shows "in_range b (np_uniform b u)"
proof -
  define d where "d = snd b - fst b"
  have dl: "is_double (fst b)" "is_double (snd b)" "is_double d" "0 \<le> d"
    using b unfolding exact_range_def d_def by simp_all
  have fs: "fsub (snd b) (fst b) = d" unfolding fsub_def d_def [symmetric]
    using dl(3) by (rule round_double_fixes)
  define p where "p = fmul d u"
  have p0: "0 \<le> p" unfolding p_def fmul_def using dl(4) u by (intro round_double_nonneg) simp
  have pd: "p \<le> d" unfolding p_def fmul_def using dl(4) u
    by (intro round_double_le dl(3)) (simp add: mult_left_le)
  have n: "np_uniform b u = round_double (fst b + p)"
    unfolding np_uniform_def fs p_def fadd_def ..
  have "fst b \<le> np_uniform b u" unfolding n using p0 by (intro round_double_ge dl(1)) simp
  moreover have "np_uniform b u \<le> snd b" unfolding n using pd unfolding d_def
    by (intro round_double_le dl(2)) simp
  ultimately show ?thesis by (simp add: in_range_def)
qed

lemma np_uniform_zero: "is_double (fst b) \<Longrightarrow> np_uniform b 0 = fst b"
  by (simp add: np_uniform_def fadd_def fmul_def round_double_def [of 0] round_double_fixes)

subsection \<open>Output names\<close>

lemma digit_char_inj: "a < 10 \<Longrightarrow> b < 10 \<Longrightarrow> digit_char a = digit_char b \<Longrightarrow> a = b"
proof -
  assume "a < 10" "b < 10" "digit_char a = digit_char b"
  moreover have "distinct ''0123456789''" by simp
  ultimately show "a = b"
    unfolding digit_char_def by (simp add: nth_eq_iff_index_eq)
qed

lemma digits_not_Nil: "digits n \<noteq> []"
  by (subst digits.simps) simp

lemma digits_inj: "digits n = digits m \<Longrightarrow> n = m"
proof (induction n arbitrary: m rule: digits.induct)
  case (1 n)
  show ?case
  proof (cases "n < 10")
    case True
    show ?thesis
    proof (cases "m < 10")
      case mT: True
      then show ?thesis using True "1.prems" digit_char_inj
        by (simp add: digits.simps [of n] digits.simps [of m])
    next
      case mF: False
      then show ?thesis using True "1.prems" digits_not_Nil [of "m div 10"]
        by (simp add: digits.simps [of n] digits.simps [of m])
    qed
  next
    case False
    show ?thesis
    proof (cases "m < 10")
      case mT: True
      then show ?thesis using False "1.prems" digits_not_Nil [of "n div 10"]
        by (simp add: digits.simps [of n] digits.simps [of m])
    next
      case mF: False
      from False mF "1.prems"
      have e: "digits (n div 10) = digits (m div 10)" "digit_char (n mod 10) = digit_char (m mod 10)"
        by (simp_all add: digits.simps [of n] digits.simps [of m])
      have "n div 10 = m div 10" using "1.IH" [OF False e(1)] .
      moreover have "n mod 10 = m mod 10" using digit_char_inj [OF _ _ e(2)] by simp
      ultimately show ?thesis by (metis div_mult_mod_eq)
    qed
  qed
qed

lemma str_int_inj: "0 \<le> i \<Longrightarrow> 0 \<le> j \<Longrightarrow> str_int i = str_int j \<Longrightarrow> i = j"
  using digits_inj [of "nat i" "nat j"] by (simp add: str_int_def)

lemma basename_no_sep: "CHR ''/'' \<notin> set (basename p)"
proof -
  have "\<forall>c \<in> set (takeWhile (\<lambda>c. c \<noteq> CHR ''/'') (rev p)). c \<noteq> CHR ''/''"
    using set_takeWhileD by fastforce
  then show ?thesis by (auto simp: basename_def)
qed

lemma splitext_fst_subset: "set (fst (splitext p)) \<subseteq> set p"
  by (auto simp: splitext_def Let_def dest: in_set_takeD)

lemma output_name_no_leading_sep:
  "\<not> (case output_name input_path i of [] \<Rightarrow> False | c # _ \<Rightarrow> c = CHR ''/'')"
proof -
  let ?b = "fst (splitext (basename input_path))"
  have b: "CHR ''/'' \<notin> set ?b" using splitext_fst_subset basename_no_sep by blast
  show ?thesis
  proof (cases ?b)
    case Nil
    then show ?thesis by (simp add: output_name_def)
  next
    case (Cons c cs)
    then have "c \<noteq> CHR ''/''" using b by auto
    then show ?thesis using Cons by (simp add: output_name_def)
  qed
qed

lemma path_join_output_name:
  "path_join d (output_name input_path i) =
     (if d = [] \<or> last d = CHR ''/'' then d else d @ ''/'') @ output_name input_path i"
  using output_name_no_leading_sep [of input_path i] by (simp add: path_join_def)

lemma output_path_inj:
  assumes "0 \<le> i" "0 \<le> j"
    and "path_join d (output_name input_path i) = path_join d (output_name input_path j)"
  shows "i = j"
proof -
  from assms(3) have "output_name input_path i = output_name input_path j"
    unfolding path_join_output_name by simp
  then have "str_int i = str_int j" by (simp add: output_name_def)
  then show ?thesis using assms str_int_inj by blast
qed

lemma output_paths_distinct:
  "distinct (map (\<lambda>i. path_join d (output_name input_path i)) [1..n])"
proof -
  have "inj_on (\<lambda>i. path_join d (output_name input_path i)) (set [1..n])"
    by (rule inj_onI) (auto intro: output_path_inj)
  then show ?thesis by (simp add: distinct_map)
qed

subsection \<open>A copy whose collaborators do not fail\<close>

lemma load_clips_ok:
  assumes "open_video E input_path = Inr v" and "clip_audio v \<or> open_audio E input_path = None"
  shows "\<exists>l. load_clips E input_path g = (Inr v, g, l)"
  using assms by (auto simp: load_clips_def and_then_def call_def ret_def answer_def)

lemma transform_ok: "\<exists>r g' l. transform E P video g = (Inr r, g', l)"
  by (simp add: transform_def and_then_def uniform_run video_fx_run call_run ret_def)

lemma cap_resolution_ok: "\<exists>r g' l. cap_resolution E video g = (Inr r, g', l)"
  by (simp add: cap_resolution_def video_fx_run ret_def split: prod.splits)

lemma save_ok:
  assumes "makedirs E output_dir = None"
    and "write_videofile E (path_join output_dir (output_name input_path index)) = None"
  shows "\<exists>g' l. save E input_path output_dir index final_video bitrate g =
           (Inr (path_join output_dir (output_name input_path index), bitrate), g', l)"
  using assms by (simp add: save_def and_then_def call_run answer_None ret_def Let_def)

lemma unique_once_ok:
  assumes v: "open_video E input_path = Inr v"
    and a: "clip_audio v \<or> open_audio E input_path = None"
    and d: "makedirs E output_dir = None"
    and w: "write_videofile E (path_join output_dir (output_name input_path index)) = None"
  shows "\<exists>bitrate g' l. unique_once E input_path output_dir index strength g =
           (Inr (path_join output_dir (output_name input_path index), bitrate), g', l)"
proof -
  obtain l1 where 1: "load_clips E input_path g = (Inr v, g, l1)"
    using load_clips_ok [OF v a] by blast
  obtain v2 au g2 l2 where 2: "transform E (strength_params strength) v g = (Inr (v2, au), g2, l2)"
    using transform_ok [of E "strength_params strength" v g] by auto
  obtain v3 g3 l3 where 3: "cap_resolution E v2 g2 = (Inr v3, g3, l3)"
    using cap_resolution_ok by blast
  obtain b g4 where 4: "pick_bitrate (strength_params strength) v3 g3 = (Inr b, g4, [])"
    using quietD [OF quiet_pick_bitrate] by blast
  obtain cf g5 where 5: "make_color_filter (strength_params strength) v3 g4 = (Inr cf, g5, [])"
    using quietD [OF quiet_make_color_filter] by blast
  obtain el g6 where 6: "make_element (strength_params strength) v3 g5 = (Inr el, g6, [])"
    using quietD [OF quiet_make_element] by blast
  obtain g7 l7 where 7: "save E input_path output_dir index
       \<lparr>comp_video = v3, comp_filter = cf, comp_element = el, comp_audio = au\<rparr> b g6 =
       (Inr (path_join output_dir (output_name input_path index), b), g7, l7)"
    using save_ok [OF d w] by blast
  show ?thesis
    unfolding unique_once_def Let_def
    by (simp add: and_then_def 1 2 3 4 5 6 7)
qed

lemma notify_ok:
  assumes "\<forall>cb i p e. progress_cb = Some cb \<longrightarrow> cb i p = Some e \<longrightarrow> is_Exception e"
  shows "\<exists>l. notify progress_cb i p g = (Inr (), g, l)"
  using assms
  by (auto simp: notify_def ret_def and_then_def call_def split: option.splits)

lemma copies_loop_ok:
  assumes v: "open_video E input_path = Inr v"
    and a: "clip_audio v \<or> open_audio E input_path = None"
    and d: "makedirs E dir = None"
    and w: "\<forall>i \<in> set indices. write_videofile E (path_join dir (output_name input_path i)) = None"
    and c: "\<forall>cb i p e. progress_cb = Some cb \<longrightarrow> cb i p = Some e \<longrightarrow> is_Exception e"
  shows "\<exists>g' l. copies_loop E input_path dir progress_cb strength indices outputs g =
           (Inr (outputs @ map (\<lambda>i. path_join dir (output_name input_path i)) indices), g', l)"
  using w
proof (induction indices arbitrary: outputs g)
  case Nil
  then show ?case by (simp add: ret_def)
next
  case (Cons i rest)
  let ?p = "path_join dir (output_name input_path i)"
  have wi: "write_videofile E ?p = None" using Cons.prems by simp
  obtain b g1 l1 where 1:
    "unique_once E input_path dir i strength (entropy E i) = (Inr (?p, b), g1, l1)"
    using unique_once_ok [OF v a d wi] by blast
  obtain l2 where 2: "notify progress_cb i ?p g1 = (Inr (), g1, l2)"
    using notify_ok [OF c] by blast
  obtain g3 l3 where 3:
    "copies_loop E input_path dir progress_cb strength rest (outputs @ [?p]) g1 =
       (Inr ((outputs @ [?p]) @ map (\<lambda>i. path_join dir (output_name input_path i)) rest), g3, l3)"
    using Cons.IH [of "outputs @ [?p]" g1] Cons.prems by auto
  show ?case
    by (simp add: and_then_def seed_def 1 2 3)
qed

subsection \<open>The orchestrator\<close>

text \<open>
  C10. For every copies value less than or equal to 0, \<open>unique_video\<close> returns the
  empty list, leaves the random source as it was and makes no call at all: the per-copy
  pipeline is not entered, no directory is made and no file is written.
\<close>

theorem unique_video_without_copies:
  assumes "copies \<le> 0"
  shows "unique_video E input_path copies output_dir progress_cb strength g = (Inr [], g, [])"
  using assms by (simp add: unique_video_def ret_def Let_def)

theorem unique_video_without_copies_witness:
  "(- 1 :: int) \<le> 0
   \<and> unique_video sample_env ''/tmp/a.mp4'' (- 1) None (Some failing_cb) ''medium'' zero_draws =
       (Inr [], zero_draws, [])"
  using unique_video_without_copies [of "- 1" sample_env "''/tmp/a.mp4''" None "Some failing_cb"
      "''medium''" zero_draws]
  by simp

text \<open>
  C2. For every copy count \<open>n \<ge> 1\<close> and every input path, when no copy fails (the
  video opens, with its audio, the output directory can be made, the encoder writes each
  output, and the callback raises nothing but instances of \<open>Exception\<close>),
  \<open>unique_video\<close> returns exactly \<open>n\<close> paths, in the order \<open>i = 1..n\<close>, the
  \<open>i\<close>-th being the output directory joined with the source's base name without its
  extension, then \<open>_i.mp4\<close>; and no two of them are equal.
\<close>

theorem unique_video_paths:
  assumes "1 \<le> n"
    and "open_video E input_path = Inr v"
    and "clip_audio v \<or> open_audio E input_path = None"
    and "dir = (case output_dir of None \<Rightarrow> default_output_dir E input_path | Some d \<Rightarrow> d)"
    and "makedirs E dir = None"
    and "\<forall>i \<in> {1..n}. write_videofile E
           (path_join dir (fst (splitext (basename input_path)) @ ''_'' @ str_int i @ ''.mp4'')) = None"
    and "\<forall>cb i p e. progress_cb = Some cb \<longrightarrow> cb i p = Some e \<longrightarrow> is_Exception e"
  shows "\<exists>paths.
           outcome (unique_video E input_path n output_dir progress_cb strength g) = Inr paths
         \<and> int (length paths) = n
         \<and> paths = map (\<lambda>i. path_join dir
               (fst (splitext (basename input_path)) @ ''_'' @ str_int i @ ''.mp4'')) [1..n]
         \<and> distinct paths"
proof -
  have w: "\<forall>i \<in> set [1..n]. write_videofile E (path_join dir (output_name input_path i)) = None"
    using assms(6) by (simp add: output_name_def)
  obtain g' l where
    "copies_loop E input_path dir progress_cb strength [1..n] [] g =
       (Inr ([] @ map (\<lambda>i. path_join dir (output_name input_path i)) [1..n]), g', l)"
    using copies_loop_ok [OF assms(2) assms(3) assms(5) w assms(7)] by blast
  then have "outcome (unique_video E input_path n output_dir progress_cb strength g) =
      Inr (map (\<lambda>i. path_join dir (output_name input_path i)) [1..n])"
    using assms(4) by (simp add: unique_video_def outcome_def)
  moreover have "int (length (map (\<lambda>i. path_join dir (output_name input_path i)) [1..n])) = n"
    using assms(1) by simp
  ultimately show ?thesis
    using output_paths_distinct [of dir input_path n] by (simp add: output_name_def)
qed

theorem unique_video_paths_witness:
  "outcome (unique_video sample_env ''/tmp/a.mp4'' 3 (Some ''/w'') (Some failing_cb) ''low'' zero_draws) =
     Inr [''/w/a_1.mp4'', ''/w/a_2.mp4'', ''/w/a_3.mp4'']
   \<and> distinct [''/w/a_1.mp4'', ''/w/a_2.mp4'', ''/w/a_3.mp4'']"
proof -
  have c: "\<forall>cb i p e. Some failing_cb = Some cb \<longrightarrow> cb i p = Some e \<longrightarrow> is_Exception e"
    by (auto simp: failing_cb_def)
  have v: "open_video sample_env ''/tmp/a.mp4'' = Inr sample_clip"
    by (simp add: sample_env_def)
  have a: "clip_audio sample_clip \<or> open_audio sample_env ''/tmp/a.mp4'' = None"
    by (simp add: sample_clip_def)
  have d: "''/w'' = (case Some ''/w'' of None \<Rightarrow> default_output_dir sample_env ''/tmp/a.mp4'' | Some d \<Rightarrow> d)"
    by simp
  have m: "makedirs sample_env ''/w'' = None" by (simp add: sample_env_def)
  have w: "\<forall>i \<in> {1..3}. write_videofile sample_env
           (path_join ''/w'' (fst (splitext (basename ''/tmp/a.mp4'')) @ ''_'' @ str_int i @ ''.mp4'')) = None"
    by (simp add: sample_env_def)
  have e: "map (\<lambda>i. path_join ''/w''
               (fst (splitext (basename ''/tmp/a.mp4'')) @ ''_'' @ str_int i @ ''.mp4'')) [1..3]
        = [''/w/a_1.mp4'', ''/w/a_2.mp4'', ''/w/a_3.mp4'']"
    by (simp add: upto.simps path_join_def splitext_def basename_def str_int_def digits.simps
        digit_char_def Let_def)
  show ?thesis
    using unique_video_paths [OF _ v a d m w c, of "''low''" zero_draws] unfolding e
    by auto
qed






subsection \<open>One copy, step by step\<close>

lemma load_clips_run:
  assumes "open_video E input_path = Inr v" and "clip_audio v \<or> open_audio E input_path = None"
  shows "load_clips E input_path g =
     (Inr v, g, VideoFileClip input_path # (if clip_audio v then [] else [AudioFileClip input_path]))"
  using assms by (auto simp: load_clips_def and_then_def call_def ret_def answer_def)

lemma transform_run:
  "transform E P video g =
     (Inr (apply_fx E (Rotate (np_uniform (p_rotate P) (g 2)))
            (apply_fx E (Speedx (np_uniform (p_speed P) (g 1)))
              (apply_fx E (Resize (np_uniform (p_resize P) (g 0))) video)),
           [Volumex (np_uniform (p_speed P) (g 1))]),
      (\<lambda>k. g (k + 3)),
      [VideoFx (Resize (np_uniform (p_resize P) (g 0))),
       VideoFx (Speedx (np_uniform (p_speed P) (g 1))),
       VideoFx (Rotate (np_uniform (p_rotate P) (g 2))),
       AudioFx (Volumex (np_uniform (p_speed P) (g 1)))])"
  by (simp add: transform_def and_then_def uniform_run video_fx_run call_run ret_def
      numeral_2_eq_2 numeral_3_eq_3)

lemma cap_resolution_run:
  "cap_resolution E video g =
     (if scale_cap_of E video < 1
      then (Inr (apply_fx E (Resize (scale_cap_of E video)) video), g,
            [VideoFx (Resize (scale_cap_of E video))])
      else (Inr video, g, []))"
  by (simp add: cap_resolution_def scale_cap_of_def video_fx_run ret_def split: prod.splits)

lemma pick_bitrate_run:
  "pick_bitrate P video g =
     (Inr (py_int (fmul (py_float (original_bitrate video)) (np_uniform (p_bitrate P) (g 0)))),
      (\<lambda>k. g (Suc k)), [])"
  by (simp add: pick_bitrate_def and_then_def uniform_run ret_def)

lemma make_color_filter_run:
  "\<exists>cf. make_color_filter P video g = (Inr cf, (\<lambda>k. g (5 + k)), [])
      \<and> cc_opacity cf = fmul (np_uniform (p_density P) (g 4))
                             (fadd (py_float 0) (fmul (g 3) (py_float (1 - 0))))"
  by (simp add: make_color_filter_def and_then_def uniform_run rand_def ret_def Let_def)


lemma randint_run:
  "lo < hi \<Longrightarrow>
   randint lo hi g = (Inr (lo + \<lfloor>g 0 * real_of_int (hi - lo)\<rfloor>), (\<lambda>k. g (Suc k)), [])"
  by (simp add: randint_def and_then_def random_sample_def ret_def)

lemma choice_run:
  "choice xs g = (Inr (xs ! nat \<lfloor>g 0 * real (length xs)\<rfloor>), (\<lambda>k. g (Suc k)), [])"
  by (simp add: choice_def and_then_def random_sample_def ret_def)

lemma randint_value_bounds:
  assumes "0 \<le> u" "u < 1" "lo < hi"
  shows "lo \<le> lo + \<lfloor>u * real_of_int (hi - lo)\<rfloor>" and "lo + \<lfloor>u * real_of_int (hi - lo)\<rfloor> < hi"
proof -
  have p: "0 < real_of_int (hi - lo)" using assms by simp
  have "0 \<le> u * real_of_int (hi - lo)" using assms p by simp
  then have "0 \<le> \<lfloor>u * real_of_int (hi - lo)\<rfloor>" by simp
  then show "lo \<le> lo + \<lfloor>u * real_of_int (hi - lo)\<rfloor>" by simp
  have "u * real_of_int (hi - lo) < 1 * real_of_int (hi - lo)"
    using assms p by (intro mult_strict_right_mono) simp_all
  then have "\<lfloor>u * real_of_int (hi - lo)\<rfloor> < hi - lo" by (simp add: floor_less_iff)
  then show "lo + \<lfloor>u * real_of_int (hi - lo)\<rfloor> < hi" by simp
qed

lemma unit_draws_shift: "unit_draws g \<Longrightarrow> unit_draws (\<lambda>k. g (n + k))"
  by (simp add: unit_draws_def)

lemma unit_draws_Suc: "unit_draws g \<Longrightarrow> unit_draws (\<lambda>k. g (Suc k))"
  by (simp add: unit_draws_def)

lemma rectangle_element_run:
  "rectangle_element video opacity g =
     (let w = 50 + \<lfloor>g 0 * real_of_int (max 51 (clip_w video div 2) - 50)\<rfloor>;
          h = 50 + \<lfloor>g 1 * real_of_int (max 51 (clip_h video div 2) - 50)\<rfloor>
      in (Inr (Rectangle (w, h)
            (0 + \<lfloor>g 2 * real_of_int (255 - 0)\<rfloor>, 0 + \<lfloor>g 3 * real_of_int (255 - 0)\<rfloor>,
             0 + \<lfloor>g 4 * real_of_int (255 - 0)\<rfloor>) opacity
            (0 + \<lfloor>g 5 * real_of_int (max 1 (clip_w video - w) - 0)\<rfloor>,
             0 + \<lfloor>g 6 * real_of_int (max 1 (clip_h video - h) - 0)\<rfloor>)),
          (\<lambda>k. g (7 + k)), []))"
  by (simp add: rectangle_element_def and_then_def randint_run ret_def Let_def eval_nat_numeral)


lemma inside_frame:
  fixes W w x :: int
  assumes "50 \<le> w" "w < max 51 (W div 2)" "0 \<le> x" "x < max 1 (W - w)" "50 \<le> W"
  shows "x + w \<le> W"
  using assms by (auto simp: max_def split: if_splits)

lemma rectangle_element_bounds:
  assumes u: "unit_draws g"
    and r: "rectangle_element video opacity g = (Inr (Rectangle (w, h) colour op (x, y)), g', l)"
  shows "50 \<le> w \<and> w < max 51 (clip_w video div 2)
       \<and> 50 \<le> h \<and> h < max 51 (clip_h video div 2)
       \<and> 0 \<le> x \<and> x < max 1 (clip_w video - w)
       \<and> 0 \<le> y \<and> y < max 1 (clip_h video - h)"
proof -
  have g: "\<And>k. 0 \<le> g k" "\<And>k. g k < 1" using u by (simp_all add: unit_draws_def)
  have w: "w = 50 + \<lfloor>g 0 * real_of_int (max 51 (clip_w video div 2) - 50)\<rfloor>"
    and h: "h = 50 + \<lfloor>g 1 * real_of_int (max 51 (clip_h video div 2) - 50)\<rfloor>"
    and x: "x = 0 + \<lfloor>g 5 * real_of_int (max 1 (clip_w video - w) - 0)\<rfloor>"
    and y: "y = 0 + \<lfloor>g 6 * real_of_int (max 1 (clip_h video - h) - 0)\<rfloor>"
    using r unfolding rectangle_element_run Let_def by auto
  have "50 \<le> w" "w < max 51 (clip_w video div 2)"
    unfolding w using randint_value_bounds [OF g(1) g(2), of 50 "max 51 (clip_w video div 2)" 0]
    by simp_all
  moreover have "50 \<le> h" "h < max 51 (clip_h video div 2)"
    unfolding h using randint_value_bounds [OF g(1) g(2), of 50 "max 51 (clip_h video div 2)" 1]
    by simp_all
  moreover have "0 \<le> x" "x < max 1 (clip_w video - w)"
    using randint_value_bounds [OF g(1) g(2), of 0 "max 1 (clip_w video - w)" 5] x
    by simp_all
  moreover have "0 \<le> y" "y < max 1 (clip_h video - h)"
    using randint_value_bounds [OF g(1) g(2), of 0 "max 1 (clip_h video - h)" 6] y
    by simp_all
  ultimately show ?thesis by simp
qed

lemma noise_not_rectangle:
  "noise_element video opacity g \<noteq> (Inr (Rectangle sz colour op pos), g', l)"
  by (auto simp: noise_element_def and_then_def rand_def ret_def split: prod.splits)

lemma lines_not_rectangle:
  "lines_element video opacity g \<noteq> (Inr (Rectangle sz colour op pos), g', l)"
  by (auto simp: lines_element_def ret_def elim!: and_then_InrE)

lemma circle_not_rectangle:
  "circle_element video opacity g \<noteq> (Inr (Rectangle sz colour op pos), g', l)"
  by (auto simp: circle_element_def ret_def elim!: and_then_InrE)

lemma gradient_not_rectangle:
  "gradient_element video opacity g \<noteq> (Inr (Rectangle sz colour op pos), g', l)"
  by (auto simp: gradient_element_def ret_def split: prod.splits elim!: and_then_InrE)

lemma and_then_quiet: "m g = (Inr x, g', []) \<Longrightarrow> and_then m f g = f x g'"
  by (simp add: and_then_def split: prod.splits)

lemma make_element_run:
  "make_element P video g =
     (if 2 \<le> min (clip_w video) (clip_h video)
      then (let element_type =
                  [''rectangle'', ''noise'', ''lines'', ''circle'', ''gradient'']
                    ! nat \<lfloor>g 1 * real (length [''rectangle'', ''noise'', ''lines'', ''circle'', ''gradient''])\<rfloor>
            in (if element_type = ''rectangle'' then rectangle_element video
                 else if element_type = ''noise'' then noise_element video
                 else if element_type = ''lines'' then lines_element video
                 else if element_type = ''circle'' then circle_element video
                 else gradient_element video) (np_uniform (p_opacity P) (g 0)) (\<lambda>k. g (Suc (Suc k))))
      else rectangle_element video (np_uniform (p_opacity P) (g 0)) (\<lambda>k. g (Suc k)))"
  unfolding make_element_def and_then_quiet [OF uniform_run]
  by (simp add: and_then_quiet [OF choice_run] and_then_ret Let_def)

lemma make_element_rectangle:
  assumes u: "unit_draws g"
    and r: "make_element P video g = (Inr (Rectangle (w, h) colour op (x, y)), g', l)"
  shows "50 \<le> w \<and> w < max 51 (clip_w video div 2)
       \<and> 50 \<le> h \<and> h < max 51 (clip_h video div 2)
       \<and> 0 \<le> x \<and> x < max 1 (clip_w video - w)
       \<and> 0 \<le> y \<and> y < max 1 (clip_h video - h)"
proof -
  have "\<exists>opacity g1. unit_draws g1
      \<and> rectangle_element video opacity g1 = (Inr (Rectangle (w, h) colour op (x, y)), g', l)"
    using r unit_draws_Suc [OF u] unit_draws_Suc [OF unit_draws_Suc [OF u]]
      noise_not_rectangle lines_not_rectangle circle_not_rectangle gradient_not_rectangle
    unfolding make_element_run Let_def
    by (auto split: if_splits)
  then show ?thesis using rectangle_element_bounds by blast
qed

lemma save_run:
  "save E input_path output_dir index final_video bitrate g =
     (case makedirs E output_dir of
        Some e \<Rightarrow> (Inl e, g, [MakeDirs output_dir])
      | None \<Rightarrow>
          (case write_videofile E (path_join output_dir (output_name input_path index)) of
             Some e \<Rightarrow> Inl e
           | None \<Rightarrow> Inr (path_join output_dir (output_name input_path index), bitrate),
           g,
           [MakeDirs output_dir,
            WriteVideofile final_video
              (encoder_args E (path_join output_dir (output_name input_path index)) bitrate)]))"
  by (simp add: save_def and_then_def call_run answer_def ret_def raise_def Let_def
      encoder_args_def split: option.splits)

lemma unique_once_load_failed:
  assumes "\<not> (\<exists>v. open_video E input_path = Inr v
             \<and> (clip_audio v \<or> open_audio E input_path = None))"
  shows "set (calls_of (unique_once E input_path output_dir index strength g))
           \<subseteq> {VideoFileClip input_path, AudioFileClip input_path}"
  using assms
  by (auto simp: unique_once_def load_clips_def and_then_def call_def ret_def raise_def
      answer_def calls_of_def split: sum.splits option.splits if_splits)

lemma unique_once_run:
  assumes v: "open_video E input_path = Inr v"
    and a: "clip_audio v \<or> open_audio E input_path = None"
  shows "\<exists>cf el g6.
      make_element (strength_params strength)
          (capped E (transformed E (strength_params strength) v g)) (\<lambda>k. g (9 + k))
        = (Inr el, g6, [])
    \<and> cc_opacity cf = fmul (np_uniform (p_density (strength_params strength)) (g 8))
                           (fadd (py_float 0) (fmul (g 7) (py_float (1 - 0))))
    \<and> unique_once E input_path output_dir index strength g =
        (case save E input_path output_dir index
                \<lparr>comp_video = capped E (transformed E (strength_params strength) v g),
                 comp_filter = cf, comp_element = el,
                 comp_audio = [Volumex (np_uniform (p_speed (strength_params strength)) (g 1))]\<rparr>
                (py_int (fmul (py_float (original_bitrate v))
                          (np_uniform (p_bitrate (strength_params strength)) (g 3))))
                g6 of
           (r, g7, l7) \<Rightarrow>
             (r, g7,
              (VideoFileClip input_path # (if clip_audio v then [] else [AudioFileClip input_path]))
              @ [VideoFx (Resize (np_uniform (p_resize (strength_params strength)) (g 0))),
                 VideoFx (Speedx (np_uniform (p_speed (strength_params strength)) (g 1))),
                 VideoFx (Rotate (np_uniform (p_rotate (strength_params strength)) (g 2))),
                 AudioFx (Volumex (np_uniform (p_speed (strength_params strength)) (g 1)))]
              @ (if scale_cap_of E (transformed E (strength_params strength) v g) < 1
                 then [VideoFx (Resize (scale_cap_of E (transformed E (strength_params strength) v g)))]
                 else [])
              @ l7))"
proof -
  define P where "P = strength_params strength"
  define v3 where "v3 = transformed E P v g"
  define v4 where "v4 = capped E v3"
  define b where "b = py_int (fmul (py_float (original_bitrate v)) (np_uniform (p_bitrate P) (g 3)))"
  define g3 where "g3 = (\<lambda>k. g (k + 3))"
  define g4 where "g4 = (\<lambda>k. g3 (Suc k))"
  define g5 where "g5 = (\<lambda>k. g4 (5 + k))"
  define l0 where "l0 = VideoFileClip input_path # (if clip_audio v then [] else [AudioFileClip input_path])"
  define l2 where "l2 = [VideoFx (Resize (np_uniform (p_resize P) (g 0))),
                 VideoFx (Speedx (np_uniform (p_speed P) (g 1))),
                 VideoFx (Rotate (np_uniform (p_rotate P) (g 2))),
                 AudioFx (Volumex (np_uniform (p_speed P) (g 1)))]"
  define l3 where "l3 = (if scale_cap_of E v3 < 1 then [VideoFx (Resize (scale_cap_of E v3))] else [])"
  define au where "au = [Volumex (np_uniform (p_speed P) (g 1))]"
  have 1: "load_clips E input_path g = (Inr v, g, l0)"
    unfolding l0_def by (rule load_clips_run [OF v a])
  have 2: "transform E P v g = (Inr (v3, au), g3, l2)"
    unfolding v3_def au_def g3_def l2_def transformed_def by (rule transform_run)
  have 3: "cap_resolution E v3 g3 = (Inr v4, g3, l3)"
    unfolding v4_def l3_def capped_def by (simp add: cap_resolution_run)
  have ob: "original_bitrate v4 = original_bitrate v"
    by (simp add: original_bitrate_def v4_def v3_def capped_def transformed_def apply_fx_def)
  have 4: "pick_bitrate P v4 g3 = (Inr b, g4, [])"
    unfolding pick_bitrate_run ob b_def g4_def by (simp add: g3_def)
  obtain cf where 5: "make_color_filter P v4 g4 = (Inr cf, g5, [])"
    and o5: "cc_opacity cf = fmul (np_uniform (p_density P) (g4 4))
                                (fadd (py_float 0) (fmul (g4 3) (py_float (1 - 0))))"
    unfolding g5_def using make_color_filter_run by blast
  have g4: "g4 4 = g 8" "g4 3 = g 7" unfolding g4_def g3_def by simp_all
  have g5: "g5 = (\<lambda>k. g (9 + k))"
    unfolding g5_def g4_def g3_def by (rule ext) (simp add: add.commute)
  obtain el g6 where 6: "make_element P v4 g5 = (Inr el, g6, [])"
    using quietD [OF quiet_make_element] by blast
  obtain r g7 l7 where 7: "save E input_path output_dir index
       \<lparr>comp_video = v4, comp_filter = cf, comp_element = el, comp_audio = au\<rparr> b g6 = (r, g7, l7)"
    by (metis prod_cases3)
  have "unique_once E input_path output_dir index strength g = (r, g7, l0 @ l2 @ l3 @ l7)"
    unfolding unique_once_def Let_def P_def [symmetric]
    by (simp add: and_then_def 1 2 3 4 5 6 7)
  then show ?thesis
    using 6 7 o5
    unfolding g5 g4 v4_def v3_def P_def b_def au_def l0_def l2_def l3_def
    by (intro exI [of _ cf] exI [of _ el] exI [of _ g6]) simp
qed

lemma save_no_fx: "filter is_fx (snd (snd (save E input_path output_dir index final_video bitrate g))) = []"
  by (simp add: save_run split: option.splits)

lemma write_call_of_run:
  assumes v: "open_video E input_path = Inr v"
    and w: "WriteVideofile final args \<in> set (calls_of (unique_once E input_path output_dir index strength g))"
  shows "args = encoder_args E (path_join output_dir (output_name input_path index))
                  (py_int (fmul (py_float (original_bitrate v))
                          (np_uniform (p_bitrate (strength_params strength)) (g 3))))
       \<and> comp_video final = capped E (transformed E (strength_params strength) v g)
       \<and> comp_audio final = [Volumex (np_uniform (p_speed (strength_params strength)) (g 1))]
       \<and> cc_opacity (comp_filter final) =
           fmul (np_uniform (p_density (strength_params strength)) (g 8))
                (fadd (py_float 0) (fmul (g 7) (py_float (1 - 0))))
       \<and> (\<exists>g6. make_element (strength_params strength) (comp_video final) (\<lambda>k. g (9 + k))
                 = (Inr (comp_element final), g6, []))"
proof -
  have a: "clip_audio v \<or> open_audio E input_path = None"
  proof (rule ccontr)
    assume "\<not> ?thesis"
    then have "\<not> (\<exists>v. open_video E input_path = Inr v
             \<and> (clip_audio v \<or> open_audio E input_path = None))"
      using v by auto
    from unique_once_load_failed [OF this, of output_dir index strength g] w
    show False by (auto dest: subsetD)
  qed
  obtain cf el g6 where
    el: "make_element (strength_params strength)
          (capped E (transformed E (strength_params strength) v g)) (\<lambda>k. g (9 + k))
        = (Inr el, g6, [])"
    and cf: "cc_opacity cf = fmul (np_uniform (p_density (strength_params strength)) (g 8))
                           (fadd (py_float 0) (fmul (g 7) (py_float (1 - 0))))"
    and r: "unique_once E input_path output_dir index strength g =
        (case save E input_path output_dir index
                \<lparr>comp_video = capped E (transformed E (strength_params strength) v g),
                 comp_filter = cf, comp_element = el,
                 comp_audio = [Volumex (np_uniform (p_speed (strength_params strength)) (g 1))]\<rparr>
                (py_int (fmul (py_float (original_bitrate v))
                          (np_uniform (p_bitrate (strength_params strength)) (g 3))))
                g6 of
           (r, g7, l7) \<Rightarrow>
             (r, g7,
              (VideoFileClip input_path # (if clip_audio v then [] else [AudioFileClip input_path]))
              @ [VideoFx (Resize (np_uniform (p_resize (strength_params strength)) (g 0))),
                 VideoFx (Speedx (np_uniform (p_speed (strength_params strength)) (g 1))),
                 VideoFx (Rotate (np_uniform (p_rotate (strength_params strength)) (g 2))),
                 AudioFx (Volumex (np_uniform (p_speed (strength_params strength)) (g 1)))]
              @ (if scale_cap_of E (transformed E (strength_params strength) v g) < 1
                 then [VideoFx (Resize (scale_cap_of E (transformed E (strength_params strength) v g)))]
                 else [])
              @ l7))"
    using unique_once_run [OF v a] by blast
  have "final = \<lparr>comp_video = capped E (transformed E (strength_params strength) v g),
                 comp_filter = cf, comp_element = el,
                 comp_audio = [Volumex (np_uniform (p_speed (strength_params strength)) (g 1))]\<rparr>
      \<and> args = encoder_args E (path_join output_dir (output_name input_path index))
                  (py_int (fmul (py_float (original_bitrate v))
                          (np_uniform (p_bitrate (strength_params strength)) (g 3))))"
    using w unfolding r calls_of_def save_run
    by (auto split: option.splits if_splits)
  then show ?thesis using el cf by auto
qed

lemma unit_zero_draws: "unit_draws zero_draws"
  by (simp add: unit_draws_def zero_draws_def)

lemma make_element_zero_draws:
  "2 \<le> min (clip_w video) (clip_h video) \<Longrightarrow>
   make_element P video zero_draws =
     (Inr (Rectangle (50, 50) (0, 0, 0) (np_uniform (p_opacity P) 0) (0, 0)),
      (\<lambda>k. zero_draws (7 + Suc (Suc k))), [])"
  unfolding make_element_run rectangle_element_run
  by (simp add: zero_draws_def Let_def)

lemma medium_zero_opacity: "np_uniform (p_opacity medium_profile) 0 = literal 0.10"
  by (simp add: np_uniform_zero medium_profile_def is_double_literal)

lemma write_call_exists:
  assumes v: "open_video E input_path = Inr v"
    and a: "clip_audio v \<or> open_audio E input_path = None"
    and d: "makedirs E output_dir = None"
  shows "\<exists>final args. WriteVideofile final args
           \<in> set (calls_of (unique_once E input_path output_dir index strength g))"
proof -
  obtain cf el g6 where
    r: "unique_once E input_path output_dir index strength g =
        (case save E input_path output_dir index
                \<lparr>comp_video = capped E (transformed E (strength_params strength) v g),
                 comp_filter = cf, comp_element = el,
                 comp_audio = [Volumex (np_uniform (p_speed (strength_params strength)) (g 1))]\<rparr>
                (py_int (fmul (py_float (original_bitrate v))
                          (np_uniform (p_bitrate (strength_params strength)) (g 3))))
                g6 of
           (r, g7, l7) \<Rightarrow>
             (r, g7,
              (VideoFileClip input_path # (if clip_audio v then [] else [AudioFileClip input_path]))
              @ [VideoFx (Resize (np_uniform (p_resize (strength_params strength)) (g 0))),
                 VideoFx (Speedx (np_uniform (p_speed (strength_params strength)) (g 1))),
                 VideoFx (Rotate (np_uniform (p_rotate (strength_params strength)) (g 2))),
                 AudioFx (Volumex (np_uniform (p_speed (strength_params strength)) (g 1)))]
              @ (if scale_cap_of E (transformed E (strength_params strength) v g) < 1
                 then [VideoFx (Resize (scale_cap_of E (transformed E (strength_params strength) v g)))]
                 else [])
              @ l7))"
    using unique_once_run [OF v a] by blast
  show ?thesis
    unfolding r calls_of_def save_run d by (auto split: option.splits)
qed

lemma lower_low: "lower ''low'' = ''low''"
  by (simp add: lower_def lower_char_def)

text \<open>The sample run: the low profile, raw samples all 0, the 1920x1080 clip.\<close>

lemma low_zero_draws:
  "np_uniform (p_resize low_profile) 0 = literal 0.95"
  "np_uniform (p_speed low_profile) 0 = literal 0.98"
  "np_uniform (p_rotate low_profile) 0 = - literal 0.5"
  "np_uniform (p_bitrate low_profile) 0 = literal 0.9"
  "np_uniform (p_density low_profile) 0 = literal 0.4"
  "np_uniform (p_opacity low_profile) 0 = literal 0.06"
  by (simp_all add: np_uniform_zero low_profile_def is_double_literal is_double_minus)

lemma sample_transformed:
  "transformed sample_env low_profile sample_clip zero_draws =
     \<lparr>clip_w = 1824, clip_h = 1026, clip_audio = True, clip_bitrate = AttrNone,
      clip_fx = [Resize (literal 0.95), Speedx (literal 0.98), Rotate (- literal 0.5)]\<rparr>"
proof -
  have f: "py_float 1920 = 1920" "py_float 1080 = 1080"
    using py_float_exact [of 1920] py_float_exact [of 1080] by simp_all
  have "fmul 1920 (8556839292003942 * 2 powi (- 53)) = 8022036836253696 * 2 powi (- 42)"
    unfolding fmul_def by (rule round_double_eq) simp_all
  then have w: "py_int (fmul (py_float 1920) (literal 0.95)) = 1824"
    unfolding f literal_0_95 by (simp add: py_int_def)
  have "fmul 1080 (8556839292003942 * 2 powi (- 53)) = 4512395720392704 * 2 powi (- 42)"
    unfolding fmul_def by (rule round_double_eq) simp_all
  then have h: "py_int (fmul (py_float 1080) (literal 0.95)) = 1026"
    unfolding f literal_0_95 by (simp add: py_int_def)
  show ?thesis
    unfolding transformed_def zero_draws_def low_zero_draws
    using w h by (simp add: apply_fx_def sample_env_def sample_clip_def)
qed

lemma sample_products:
  "fdiv (py_float 720) (py_float 1824) = 7110946780058678 * 2 powi (- 54)"
  "py_int (fmul (py_float 1824) (7110946780058678 * 2 powi (- 54))) = 720"
  "py_int (fmul (py_float 1026) (7110946780058678 * 2 powi (- 54))) = 405"
proof -
  have f: "py_float 720 = 720" "py_float 1824 = 1824" "py_float 1026 = 1026"
    using py_float_exact [of 720] py_float_exact [of 1824] py_float_exact [of 1026]
    by simp_all
  show "fdiv (py_float 720) (py_float 1824) = 7110946780058678 * 2 powi (- 54)"
    unfolding fdiv_def f by (rule round_double_eq) simp_all
  have "fmul 1824 (7110946780058678 * 2 powi (- 54)) = 6333186975989760 * 2 powi (- 43)"
    unfolding fmul_def by (rule round_double_eq) simp_all
  then show "py_int (fmul (py_float 1824) (7110946780058678 * 2 powi (- 54))) = 720"
    unfolding f by (simp add: py_int_def)
  have "fmul 1026 (7110946780058678 * 2 powi (- 54)) = 7124835347988480 * 2 powi (- 44)"
    unfolding fmul_def by (rule round_double_eq) simp_all
  then show "py_int (fmul (py_float 1026) (7110946780058678 * 2 powi (- 54))) = 405"
    unfolding f by (simp add: py_int_def)
qed

lemma sample_scale:
  "scale_cap_of sample_env (transformed sample_env low_profile sample_clip zero_draws) =
     7110946780058678 * 2 powi (- 54)"
  unfolding sample_transformed scale_cap_of_def
  using sample_products by (simp add: sample_env_def fit_within_max_dim_def Let_def)

lemma sample_size:
  "clip_w (capped sample_env (transformed sample_env low_profile sample_clip zero_draws)) = 720"
  "clip_h (capped sample_env (transformed sample_env low_profile sample_clip zero_draws)) = 405"
  unfolding capped_def sample_scale
  unfolding sample_transformed
  using sample_products by (simp_all add: apply_fx_def sample_env_def)




text \<open>The opacity that each kind of element is given (lines 107, 121, 133, 144, 169).\<close>

lemma rectangle_opacity:
  "rectangle_element video opacity g = (Inr el, g', l) \<Longrightarrow> \<exists>sz colour pos. el = Rectangle sz colour opacity pos"
  unfolding rectangle_element_run Let_def by auto

lemma noise_opacity:
  "noise_element video opacity g = (Inr el, g', l) \<Longrightarrow> \<exists>grid px. el = Noise grid px opacity"
  by (auto simp: noise_element_def and_then_def rand_def ret_def split: prod.splits)

lemma lines_opacity:
  "lines_element video opacity g = (Inr el, g', l) \<Longrightarrow> \<exists>ls. el = Lines ls (fmul opacity (literal 0.7))"
  by (auto simp: lines_element_def ret_def elim!: and_then_InrE)

lemma circle_opacity:
  "circle_element video opacity g = (Inr el, g', l) \<Longrightarrow> \<exists>cs. el = Circle cs opacity"
  by (auto simp: circle_element_def ret_def elim!: and_then_InrE)

lemma gradient_opacity:
  "gradient_element video opacity g = (Inr el, g', l) \<Longrightarrow>
   \<exists>direction grid. el = Gradient direction grid (fmul opacity (literal 0.5))"
  by (auto simp: gradient_element_def ret_def split: prod.splits elim!: and_then_InrE)

lemma make_element_opacity:
  assumes "make_element P video g = (Inr el, g', l)"
  shows "element_opacity el =
           (case el of
              Lines _ _ \<Rightarrow> fmul (np_uniform (p_opacity P) (g 0)) (literal 0.7)
            | Gradient _ _ _ \<Rightarrow> fmul (np_uniform (p_opacity P) (g 0)) (literal 0.5)
            | _ \<Rightarrow> np_uniform (p_opacity P) (g 0))"
  using assms unfolding make_element_run Let_def
  by (auto split: if_splits
      dest!: rectangle_opacity noise_opacity lines_opacity circle_opacity gradient_opacity)

text \<open>
  C5. For every strength name, every state of the random source and every source that
  opens, in a run that reaches the encoder: the six parameters of the pipeline are the
  draws \<open>np.random.uniform(*P[key])\<close> from the range of their own key in the selected
  profile, and each lies within that range, bounds included. The resize factor, the speed
  factor and the rotation angle are the arguments of the first three effects of the
  encoded clip, the speed factor is the audio's volume factor, the bitrate multiplier
  gives the encoder's bitrate, the density times the fourth random colour component is
  the colour filter's opacity, and the element opacity is the opacity of the overlay
  element, scaled by 0.7 for the lines and by 0.5 for the gradient. The selected profile
  is the low one for a name that lower-cases to \<open>low\<close>, the high one for \<open>high\<close>, and the
  medium one for every other name, the empty one included.
\<close>

theorem sampled_params_in_range:
  assumes "unit_draws g"
    and "open_video E input_path = Inr v"
    and "WriteVideofile final args
           \<in> set (calls_of (unique_once E input_path output_dir index strength g))"
  shows "let P = strength_params strength;
             resize_factor = np_uniform (p_resize P) (g 0);
             speed_factor = np_uniform (p_speed P) (g 1);
             rotation_angle = np_uniform (p_rotate P) (g 2);
             multiplier = np_uniform (p_bitrate P) (g 3);
             density = np_uniform (p_density P) (g 8);
             opacity = np_uniform (p_opacity P) (g 9)
         in in_range (p_resize P) resize_factor \<and> in_range (p_speed P) speed_factor
          \<and> in_range (p_rotate P) rotation_angle \<and> in_range (p_bitrate P) multiplier
          \<and> in_range (p_density P) density \<and> in_range (p_opacity P) opacity
          \<and> take 3 (drop (length (clip_fx v)) (clip_fx (comp_video final))) =
              [Resize resize_factor, Speedx speed_factor, Rotate rotation_angle]
          \<and> comp_audio final = [Volumex speed_factor]
          \<and> enc_bitrate args =
              str_int (py_int (fmul (py_float (original_bitrate v)) multiplier)) @ ''k''
          \<and> cc_opacity (comp_filter final) =
              fmul density (fadd (py_float 0) (fmul (g 7) (py_float (1 - 0))))
          \<and> element_opacity (comp_element final) =
              (case comp_element final of
                 Lines _ _ \<Rightarrow> fmul opacity (literal 0.7)
               | Gradient _ _ _ \<Rightarrow> fmul opacity (literal 0.5)
               | _ \<Rightarrow> opacity)
          \<and> P = (if lower strength = ''low'' then low_profile
                 else if lower strength = ''high'' then high_profile
                 else medium_profile)"
proof -
  define P where "P = strength_params strength"
  have u: "\<And>k. 0 \<le> g k" "\<And>k. g k < 1" using assms(1) by (simp_all add: unit_draws_def)
  note r = np_uniform_in_range [OF _ u]
  note w = write_call_of_run [OF assms(2) assms(3), folded P_def]
  obtain g6 where el: "make_element P (comp_video final) (\<lambda>k. g (9 + k))
                 = (Inr (comp_element final), g6, [])"
    using w by blast
  have r1: "in_range (p_resize P) (np_uniform (p_resize P) (g 0))"
    and r2: "in_range (p_speed P) (np_uniform (p_speed P) (g 1))"
    and r3: "in_range (p_rotate P) (np_uniform (p_rotate P) (g 2))"
    and r4: "in_range (p_bitrate P) (np_uniform (p_bitrate P) (g 3))"
    and r5: "in_range (p_density P) (np_uniform (p_density P) (g 8))"
    and r6: "in_range (p_opacity P) (np_uniform (p_opacity P) (g 9))"
    unfolding P_def by (intro r profile_exact)+
  have fx: "take 3 (drop (length (clip_fx v)) (clip_fx (comp_video final))) =
      [Resize (np_uniform (p_resize P) (g 0)), Speedx (np_uniform (p_speed P) (g 1)),
       Rotate (np_uniform (p_rotate P) (g 2))]"
    using w by (simp add: capped_def transformed_def apply_fx_def)
  have au: "comp_audio final = [Volumex (np_uniform (p_speed P) (g 1))]"
    using w by simp
  have br: "enc_bitrate args =
      str_int (py_int (fmul (py_float (original_bitrate v)) (np_uniform (p_bitrate P) (g 3))))
      @ ''k''"
    using w by (simp add: encoder_args_def)
  have cc: "cc_opacity (comp_filter final) =
      fmul (np_uniform (p_density P) (g 8)) (fadd (py_float 0) (fmul (g 7) (py_float (1 - 0))))"
    using w by simp
  have eo: "element_opacity (comp_element final) =
      (case comp_element final of
         Lines _ _ \<Rightarrow> fmul (np_uniform (p_opacity P) (g 9)) (literal 0.7)
       | Gradient _ _ _ \<Rightarrow> fmul (np_uniform (p_opacity P) (g 9)) (literal 0.5)
       | _ \<Rightarrow> np_uniform (p_opacity P) (g 9))"
    by (rule make_element_opacity [OF el, unfolded add_0_right])
  have sp: "P = (if lower strength = ''low'' then low_profile
                 else if lower strength = ''high'' then high_profile
                 else medium_profile)"
    unfolding P_def by (rule strength_params_cases)
  show ?thesis
    unfolding Let_def P_def [symmetric]
    by (intro conjI r1 r2 r3 r4 r5 r6 fx au br cc eo sp)
qed

theorem sampled_params_in_range_witness:
  "\<exists>final args.
     WriteVideofile final args
       \<in> set (calls_of (unique_once sample_env ''/tmp/a.mp4'' ''/w'' 1 ''low'' zero_draws))
     \<and> in_range (literal 0.95, literal 1.05) (literal 0.95)
     \<and> in_range (literal 0.98, literal 1.02) (literal 0.98)
     \<and> in_range (- literal 0.5, literal 0.5) (- literal 0.5)
     \<and> in_range (literal 0.9, literal 1.1) (literal 0.9)
     \<and> in_range (literal 0.4, literal 0.6) (literal 0.4)
     \<and> in_range (literal 0.06, literal 0.12) (literal 0.06)
     \<and> take 3 (clip_fx (comp_video final)) =
         [Resize (literal 0.95), Speedx (literal 0.98), Rotate (- literal 0.5)]
     \<and> comp_audio final = [Volumex (literal 0.98)]
     \<and> enc_bitrate args = ''2700k''
     \<and> cc_opacity (comp_filter final) = 0
     \<and> comp_element final = Rectangle (50, 50) (0, 0, 0) (literal 0.06) (0, 0)"
proof -
  have v: "open_video sample_env ''/tmp/a.mp4'' = Inr sample_clip"
    by (simp add: sample_env_def)
  have a: "clip_audio sample_clip \<or> open_audio sample_env ''/tmp/a.mp4'' = None"
    by (simp add: sample_clip_def)
  have d: "makedirs sample_env ''/w'' = None"
    by (simp add: sample_env_def)
  have p: "strength_params ''low'' = low_profile"
    by (simp add: strength_params_cases lower_low)
  have z: "np_uniform (p_resize low_profile) 0 = literal 0.95"
    "np_uniform (p_speed low_profile) 0 = literal 0.98"
    "np_uniform (p_rotate low_profile) 0 = - literal 0.5"
    "np_uniform (p_bitrate low_profile) 0 = literal 0.9"
    "np_uniform (p_density low_profile) 0 = literal 0.4"
    "np_uniform (p_opacity low_profile) 0 = literal 0.06"
    by (simp_all add: np_uniform_zero low_profile_def is_double_literal is_double_minus)
  have b: "py_int (fmul (py_float 3000) (literal 0.9)) = 2700"
  proof -
    have f: "py_float 3000 = 3000" using py_float_exact [of 3000] by simp
    have "fmul 3000 (8106479329266893 * 2 powi (- 53)) = 5937362789990400 * 2 powi (- 41)"
      unfolding fmul_def by (rule round_double_eq) simp_all
    then show ?thesis unfolding f literal_0_9 by (simp add: py_int_def)
  qed
  have s: "str_int 2700 @ ''k'' = ''2700k''"
    by (simp add: str_int_def digits.simps digit_char_def)
  have c: "fmul (literal 0.4) (fadd (py_float 0) (fmul 0 (py_float (1 - 0)))) = 0"
    by (simp add: fmul_def fadd_def py_float_def round_double_def [of 0])
  obtain final args where w: "WriteVideofile final args
       \<in> set (calls_of (unique_once sample_env ''/tmp/a.mp4'' ''/w'' 1 ''low'' zero_draws))"
    using write_call_exists [OF v a d] by blast
  have e: "comp_element final = Rectangle (50, 50) (0, 0, 0) (literal 0.06) (0, 0)"
  proof -
    obtain g6 where "make_element low_profile (comp_video final) (\<lambda>k. zero_draws (9 + k))
                 = (Inr (comp_element final), g6, [])"
      and cv: "comp_video final = capped sample_env (transformed sample_env low_profile sample_clip zero_draws)"
      using write_call_of_run [OF v w] unfolding p by blast
    moreover have "(\<lambda>k. zero_draws (9 + k)) = zero_draws"
      by (rule ext) (simp add: zero_draws_def)
    moreover have "2 \<le> min (clip_w (comp_video final)) (clip_h (comp_video final))"
      unfolding cv by (simp add: sample_size)
    ultimately show ?thesis
      by (simp add: make_element_zero_draws z)
  qed
  have o: "original_bitrate sample_clip = 3000"
    by (simp add: original_bitrate_def sample_clip_def)
  have f: "clip_fx sample_clip = []" by (simp add: sample_clip_def)
  have "unit_draws zero_draws" by (rule unit_zero_draws)
  from sampled_params_in_range [OF this v w] e
  have "in_range (literal 0.95, literal 1.05) (literal 0.95)
     \<and> in_range (literal 0.98, literal 1.02) (literal 0.98)
     \<and> in_range (- literal 0.5, literal 0.5) (- literal 0.5)
     \<and> in_range (literal 0.9, literal 1.1) (literal 0.9)
     \<and> in_range (literal 0.4, literal 0.6) (literal 0.4)
     \<and> in_range (literal 0.06, literal 0.12) (literal 0.06)
     \<and> take 3 (clip_fx (comp_video final)) =
         [Resize (literal 0.95), Speedx (literal 0.98), Rotate (- literal 0.5)]
     \<and> comp_audio final = [Volumex (literal 0.98)]
     \<and> enc_bitrate args = ''2700k''
     \<and> cc_opacity (comp_filter final) = 0"
    unfolding Let_def p zero_draws_def z o f b s c
    by (simp add: low_profile_def lower_low)
  then show ?thesis using w e by blast
qed


text \<open>
  C6. For every source that opens and every state of the random source, the effect calls
  of the one-copy pipeline are, in this order: resize by the sampled factor, speed change
  by the sampled factor, rotation by the sampled angle, audio volume scaled by the same
  sampled speed factor, and only then the cap's resize, which is made exactly when the
  scale computed for the transformed clip is below 1.
\<close>

theorem transforms_in_order:
  assumes v: "open_video E input_path = Inr v"
    and a: "clip_audio v \<or> open_audio E input_path = None"
  shows "let P = strength_params strength;
             resize_factor = np_uniform (p_resize P) (g 0);
             speed_factor = np_uniform (p_speed P) (g 1);
             rotation_angle = np_uniform (p_rotate P) (g 2);
             scale_cap = scale_cap_of E
               (apply_fx E (Rotate rotation_angle)
                 (apply_fx E (Speedx speed_factor) (apply_fx E (Resize resize_factor) v)))
         in filter is_fx (calls_of (unique_once E input_path output_dir index strength g)) =
              [VideoFx (Resize resize_factor), VideoFx (Speedx speed_factor),
               VideoFx (Rotate rotation_angle), AudioFx (Volumex speed_factor)]
              @ (if scale_cap < 1 then [VideoFx (Resize scale_cap)] else [])"
proof -
  obtain cf el g6 where
    r: "unique_once E input_path output_dir index strength g =
        (case save E input_path output_dir index
                \<lparr>comp_video = capped E (transformed E (strength_params strength) v g),
                 comp_filter = cf, comp_element = el,
                 comp_audio = [Volumex (np_uniform (p_speed (strength_params strength)) (g 1))]\<rparr>
                (py_int (fmul (py_float (original_bitrate v))
                          (np_uniform (p_bitrate (strength_params strength)) (g 3))))
                g6 of
           (r, g7, l7) \<Rightarrow>
             (r, g7,
              (VideoFileClip input_path # (if clip_audio v then [] else [AudioFileClip input_path]))
              @ [VideoFx (Resize (np_uniform (p_resize (strength_params strength)) (g 0))),
                 VideoFx (Speedx (np_uniform (p_speed (strength_params strength)) (g 1))),
                 VideoFx (Rotate (np_uniform (p_rotate (strength_params strength)) (g 2))),
                 AudioFx (Volumex (np_uniform (p_speed (strength_params strength)) (g 1)))]
              @ (if scale_cap_of E (transformed E (strength_params strength) v g) < 1
                 then [VideoFx (Resize (scale_cap_of E (transformed E (strength_params strength) v g)))]
                 else [])
              @ l7))"
    using unique_once_run [OF v a] by blast
  show ?thesis
    unfolding r Let_def calls_of_def transformed_def [symmetric]
    using save_no_fx
    by (simp split: prod.splits) (metis snd_conv)
qed

theorem transforms_in_order_witness:
  "filter is_fx (calls_of (unique_once sample_env ''/tmp/a.mp4'' ''/w'' 1 ''low'' zero_draws)) =
     [VideoFx (Resize (literal 0.95)), VideoFx (Speedx (literal 0.98)),
      VideoFx (Rotate (- literal 0.5)), AudioFx (Volumex (literal 0.98)),
      VideoFx (Resize (7110946780058678 * 2 powi (- 54)))]"
proof -
  have v: "open_video sample_env ''/tmp/a.mp4'' = Inr sample_clip"
    by (simp add: sample_env_def)
  have a: "clip_audio sample_clip \<or> open_audio sample_env ''/tmp/a.mp4'' = None"
    by (simp add: sample_clip_def)
  have p: "strength_params ''low'' = low_profile"
    by (simp add: strength_params_cases lower_low)
  have c: "scale_cap_of sample_env
       (apply_fx sample_env (Rotate (- literal 0.5))
         (apply_fx sample_env (Speedx (literal 0.98))
           (apply_fx sample_env (Resize (literal 0.95)) sample_clip))) =
       7110946780058678 * 2 powi (- 54)"
    using sample_scale unfolding transformed_def zero_draws_def low_zero_draws .
  show ?thesis
    using transforms_in_order [OF v a, of "''low''" zero_draws "''/w''" 1]
    unfolding Let_def p zero_draws_def low_zero_draws c
    by simp
qed

text \<open>
  C7. The claim says that whenever the rectangle is drawn it lies entirely inside the
  frame. Its size is at least 50 in both dimensions whatever the frame
  (\<open>randint(50, max(51, dim // 2))\<close>), and the position is drawn from
  \<open>randint(0, max(1, dim - size))\<close>: in a frame below 50 pixels the guards \<open>max(51, _)\<close>
  and \<open>max(1, _)\<close> give a 50-pixel rectangle at position 0, wider than the frame.
\<close>

theorem rectangle_outside_small_frame_counterexample:
  "fst (make_element medium_profile tiny_clip zero_draws) =
     Inr (Rectangle (50, 50) (0, 0, 0) (literal 0.10) (0, 0))
   \<and> clip_w tiny_clip = 40 \<and> \<not> (0 + 50 \<le> clip_w tiny_clip)"
  by (simp add: make_element_zero_draws tiny_clip_def medium_zero_opacity)

text \<open>
  C7, as the code has it: when the rectangle is drawn, its width and height lie in
  \<open>[50, max(51, dim // 2))\<close> for the respective dimension of the frame and its position
  is not negative; in a dimension where the frame has at least 50 pixels the rectangle
  ends inside the frame; in a dimension where the frame has fewer, the size is 50 and the
  position 0.
\<close>

theorem rectangle_geometry:
  assumes "unit_draws g"
    and "make_element P video g = (Inr (Rectangle (w, h) colour opacity (x, y)), g', l)"
  shows "50 \<le> w \<and> w < max 51 (clip_w video div 2)
       \<and> 50 \<le> h \<and> h < max 51 (clip_h video div 2)
       \<and> 0 \<le> x \<and> 0 \<le> y
       \<and> (50 \<le> clip_w video \<longrightarrow> x + w \<le> clip_w video)
       \<and> (50 \<le> clip_h video \<longrightarrow> y + h \<le> clip_h video)
       \<and> (clip_w video < 50 \<longrightarrow> w = 50 \<and> x = 0)
       \<and> (clip_h video < 50 \<longrightarrow> h = 50 \<and> y = 0)"
proof -
  have b: "50 \<le> w" "w < max 51 (clip_w video div 2)" "50 \<le> h" "h < max 51 (clip_h video div 2)"
    "0 \<le> x" "x < max 1 (clip_w video - w)" "0 \<le> y" "y < max 1 (clip_h video - h)"
    using make_element_rectangle [OF assms] by simp_all
  have "50 \<le> clip_w video \<longrightarrow> x + w \<le> clip_w video"
    using inside_frame [OF b(1) b(2) b(5) b(6)] by simp
  moreover have "50 \<le> clip_h video \<longrightarrow> y + h \<le> clip_h video"
    using inside_frame [OF b(3) b(4) b(7) b(8)] by simp
  moreover have "clip_w video < 50 \<longrightarrow> w = 50 \<and> x = 0"
    using b(1) b(2) b(5) b(6) by (auto simp: max_def split: if_splits)
  moreover have "clip_h video < 50 \<longrightarrow> h = 50 \<and> y = 0"
    using b(3) b(4) b(7) b(8) by (auto simp: max_def split: if_splits)
  ultimately show ?thesis using b by simp
qed

theorem rectangle_geometry_witness:
  "unit_draws zero_draws
   \<and> fst (make_element medium_profile sample_clip zero_draws) =
       Inr (Rectangle (50, 50) (0, 0, 0) (literal 0.10) (0, 0))
   \<and> (50::int) < max 51 (clip_w sample_clip div 2)
   \<and> (0::int) + 50 \<le> clip_w sample_clip \<and> (0::int) + 50 \<le> clip_h sample_clip"
proof -
  have m: "make_element medium_profile sample_clip zero_draws =
     (Inr (Rectangle (50, 50) (0, 0, 0) (np_uniform (p_opacity medium_profile) 0) (0, 0)),
      (\<lambda>k. zero_draws (7 + Suc (Suc k))), [])"
    by (rule make_element_zero_draws) (simp add: sample_clip_def)
  have s: "(50::int) \<le> clip_w sample_clip" "(50::int) \<le> clip_h sample_clip"
    by (simp_all add: sample_clip_def)
  show ?thesis
    using rectangle_geometry [OF unit_zero_draws m] s unit_zero_draws m
    by (simp add: medium_zero_opacity)
qed

text \<open>
  C9. For every source that opens, the encoder is called with \<open>fps = 24\<close> and with
  the bitrate argument \<open>f"{bitrate}k"\<close>, where \<open>bitrate\<close> is the truncation to an
  integer of the product, in doubles, of the original bitrate and the sampled multiplier,
  and the original bitrate is the source's \<open>reader.bitrate\<close>, or 3000 when reading it
  raises or it is absent (\<open>None\<close> or \<open>0\<close>, which \<open>or\<close> treats alike).
\<close>

theorem encoder_bitrate_and_fps:
  assumes "open_video E input_path = Inr v"
    and "WriteVideofile final args
           \<in> set (calls_of (unique_once E input_path output_dir index strength g))"
  shows "enc_fps args = 24
       \<and> enc_bitrate args =
           str_int (py_int (fmul (py_float (original_bitrate v))
                                 (np_uniform (p_bitrate (strength_params strength)) (g 3))))
           @ ''k''
       \<and> original_bitrate v =
           (case clip_bitrate v of
              AttrValue b \<Rightarrow> if b = 0 then 3000 else b
            | _ \<Rightarrow> 3000)"
  using write_call_of_run [OF assms]
  by (simp add: encoder_args_def original_bitrate_def split: bitrate_attr.splits)

text \<open>
  The medium profile and the raw sample 7/8: the multiplier is the double next below
  1.15, the product with 3000 is the double next below 3450, and the bitrate is 3449.
\<close>

lemma medium_high_bitrate:
  "py_int (fmul (py_float 3000) (np_uniform (p_bitrate medium_profile) (7 / 8))) = 3449"
proof -
  have d: "fsub (literal 1.2) (literal 0.8) = 7205759403792792 * 2 powi (- 54)"
    unfolding fsub_def literal_0_8 literal_1_2 by (rule round_double_eq) simp_all
  have p: "fmul (7205759403792792 * 2 powi (- 54)) (7 / 8) = 6305039478318693 * 2 powi (- 54)"
    unfolding fmul_def by (rule round_double_eq) simp_all
  have m: "fadd (literal 0.8) (6305039478318693 * 2 powi (- 54)) =
             5179139571476070 * 2 powi (- 52)"
    unfolding fadd_def literal_0_8 by (rule round_double_eq) simp_all
  have b: "fmul 3000 (5179139571476070 * 2 powi (- 52)) = 7586630231654399 * 2 powi (- 41)"
    unfolding fmul_def by (rule round_double_eq) simp_all
  have u: "np_uniform (p_bitrate medium_profile) (7 / 8) = 5179139571476070 * 2 powi (- 52)"
    unfolding np_uniform_def medium_profile_def profile.select_convs fst_conv snd_conv d p m ..
  have f: "py_float 3000 = 3000" using py_float_exact [of 3000] by simp
  show ?thesis
    unfolding u f b by (simp add: py_int_def)
qed

theorem encoder_bitrate_and_fps_witness:
  "\<exists>final args. WriteVideofile final args
       \<in> set (calls_of (unique_once sample_env ''/tmp/a.mp4'' ''/w'' 1 ''medium'' high_draws))
     \<and> enc_fps args = 24 \<and> enc_bitrate args = ''3449k''"
proof -
  have v: "open_video sample_env ''/tmp/a.mp4'' = Inr sample_clip"
    by (simp add: sample_env_def)
  have a: "clip_audio sample_clip \<or> open_audio sample_env ''/tmp/a.mp4'' = None"
    by (simp add: sample_clip_def)
  have d: "makedirs sample_env ''/w'' = None"
    by (simp add: sample_env_def)
  have p: "strength_params ''medium'' = medium_profile"
    by (simp add: strength_params_cases lower_def lower_char_def)
  have o: "original_bitrate sample_clip = 3000"
    by (simp add: original_bitrate_def sample_clip_def)
  have s: "str_int 3449 @ ''k'' = ''3449k''"
    by (simp add: str_int_def digits.simps digit_char_def)
  obtain final args where w: "WriteVideofile final args
       \<in> set (calls_of (unique_once sample_env ''/tmp/a.mp4'' ''/w'' 1 ''medium'' high_draws))"
    using write_call_exists [OF v a d] by blast
  have "enc_fps args = 24 \<and> enc_bitrate args = ''3449k''"
    using encoder_bitrate_and_fps [OF v w]
    unfolding p o high_draws_def medium_high_bitrate s by simp
  then show ?thesis using w by blast
qed


subsection \<open>The job\<close>









subsection \<open>The concurrency bound\<close>







end
